theory Spec2Isabelle
  imports Main
begin

section \<open>The upload pipeline of the Uploader component\<close>

text \<open>
  A shallow embedding of the \<^verbatim>\<open>Uploader\<close> React component
  (\<^verbatim>\<open>src/src/api/electronStore.ts\<close>, second document of the file). The component's
  \<^verbatim>\<open>useState\<close> cells and \<^verbatim>\<open>useRef\<close> cells are the fields of one state record;
  every call that leaves the component (a prop callback, the upload manager, the import
  service, the collection service, the router, the logger) is appended to a trace of
  effects, in the order the code makes the calls. What an external call returns is read
  from an environment record, so that every theorem holds for every behaviour of the
  collaborators. A rejected promise or a thrown exception is a value of \<open>custom_error\<close>.

  An \<^verbatim>\<open>async\<close> function that is awaited, or that is the last call of a callback of
  the user interface, is run to its end where it is called. A call that is not awaited and
  is followed by more statements of its caller (the upload started by
  \<^verbatim>\<open>handleCollectionCreationAndUpload\<close>, the \<^verbatim>\<open>then\<close> callback of
  \<^verbatim>\<open>getPendingUploads()\<close>) runs to its first \<^verbatim>\<open>await\<close> and is suspended there: what is
  left of it waits in the state cell \<open>suspendedCalls\<close> until \<open>resumeNext\<close> runs it,
  after the caller has finished.
\<close>

subsection \<open>Data\<close>

datatype upload_type = FILES | FOLDERS | ZIPS

datatype upload_strategy = SINGLE_COLLECTION | COLLECTION_PER_FOLDER

text \<open>\<^verbatim>\<open>File | ElectronFile\<close>: a name, and a path that only desktop files carry.\<close>

record file_ref =
  fileName :: string
  filePath :: "string option"

record collection =
  collection_id :: int
  collection_name :: string

record file_with_collection =
  fileRef :: file_ref
  localID :: nat
  collectionID :: int

record import_suggestion =
  rootFolderName :: "string option"
  hasNestedFolders :: bool

text \<open>
  \<^verbatim>\<open>CustomError\<close> (\<^verbatim>\<open>utils/error\<close>) is not under \<^verbatim>\<open>src/\<close>. The component compares
  \<^verbatim>\<open>err.message\<close> with three of its members; every other message, and every exception
  of the runtime, is \<open>OtherError\<close> with its message.
\<close>

datatype custom_error =
    SESSION_EXPIRED
  | SUBSCRIPTION_EXPIRED
  | STORAGE_QUOTA_EXCEEDED
  | OtherError string

definition TypeError :: custom_error where
  "TypeError = OtherError ''TypeError''"

text \<open>The texts of \<^verbatim>\<open>utils/strings/constants\<close>, by the name of the constant.\<close>

datatype message =
    MSG_SUBSCRIPTION_EXPIRED
  | MSG_STORAGE_QUOTA_EXCEEDED
  | MSG_UNKNOWN_ERROR

datatype action_text = UPGRADE_NOW | RENEW_NOW

text \<open>\<^verbatim>\<open>NotificationAttributes\<close>; the callback of an action is always
  \<^verbatim>\<open>galleryContext.showPlanSelectorModal\<close>, the icon is \<^verbatim>\<open>DiscFullIcon\<close> when present.\<close>

record notification =
  variant :: string
  notification_message :: message
  notification_action :: "action_text option"
  discFullIcon :: bool

datatype dialog =
    CANVAS_BLOCKED_DIALOG
  | CREATE_ALBUM_FAILED_DIALOG
  | DOWNLOAD_APP_DIALOG

text \<open>The closure \<^verbatim>\<open>showNextModal\<close> handed to the collection selector.\<close>

datatype next_modal =
    ShowChoiceModal
  | UploadToSingleNew "string option"

datatype effect =
    UploadManagerInit
  | GetPendingUploads
  | CloseCollectionSelector
  | CloseUploadTypeSelector
  | PrepareForNewUpload
  | SetUploadInProgress bool
  | SyncWithRemote "bool option" "bool option"
  | SyncCollections
  | CreateAlbum "string option" "collection list"
  | SetToUploadCollection "collection list"
  | SetToUploadFiles upload_type "string option list"
  | QueueFilesForUpload "file_with_collection list" "collection list"
  | RetryFailedFiles
  | ShowSessionExpiredMessage
  | SetNotificationAttributes notification
  | SetDialogMessage dialog
  | LogError custom_error string
  | CancelRemainingUploads
  | RouterReload
  | SetLoading bool
  | ResetSharedFiles
  | SetCollectionSelectorAttributes next_modal
  | SetCollectionNamerAttributes

subsection \<open>The upload manager's state\<close>

datatype outcome = Succeeded | AlreadyUploaded | Failed

datatype upload_stage = START | READING | ENCRYPTING | UPLOADING | FINISH

text \<open>
  Modelled from the spec: \<^verbatim>\<open>UploadBatchState\<close> of the upload manager
  (\<^verbatim>\<open>services/upload/uploadManager\<close>, not under \<^verbatim>\<open>src/\<close>): the counters, the name of
  each file by \<^verbatim>\<open>localID\<close>, the uploads in progress, the finished uploads with their
  outcome, the current stage and the live-photo flag.
\<close>

record upload_batch_state =
  finished :: nat
  total :: nat
  uploadFileNames :: "(nat \<times> string) list"
  inProgressUploads :: "nat list"
  finishedUploads :: "(file_with_collection \<times> outcome) list"
  uploadStage :: "upload_stage option"
  hasLivePhotos :: bool

text \<open>
  Modelled from the spec: the upload manager holds the batch state and the items that
  were enqueued and not yet dequeued.
\<close>

record upload_manager =
  batch :: upload_batch_state
  queued :: "file_with_collection list"

definition emptyBatchState :: upload_batch_state where
  "emptyBatchState =
     \<lparr>finished = 0, total = 0, uploadFileNames = [], inProgressUploads = [],
      finishedUploads = [], uploadStage = None, hasLivePhotos = False\<rparr>"

definition failedItems :: "upload_batch_state \<Rightarrow> file_with_collection list" where
  "failedItems b = map fst (filter (\<lambda>p. snd p = Failed) (finishedUploads b))"

subsection \<open>The component's state and its environment\<close>

text \<open>What is left of a call that is suspended: the \<^verbatim>\<open>then\<close> callback of
  \<^verbatim>\<open>ImportService.getPendingUploads()\<close>, or \<^verbatim>\<open>uploadFilesToNewCollections\<close> after its
  first \<^verbatim>\<open>await\<close> with the arguments it was called with.\<close>

datatype suspended_call =
    PendingUploadsCallback
  | UploadFilesToNewCollections_rest upload_strategy "string option"

record uploader_state =
  uploadProgressView :: bool
  choiceModalView :: bool
  importSuggestion :: import_suggestion
  toUploadFiles :: "file_ref list option"
  isPendingDesktopUpload :: bool
  pendingDesktopUploadCollectionName :: "string option"
  uploadType :: "upload_type option"
  zipPaths :: "string list option"
  electronFiles :: "file_ref list option"
  webFiles :: "file_ref list"
  sharedFiles :: "file_ref list option"
  uploadInProgress :: bool
  manager :: upload_manager
  suspendedCalls :: "suspended_call list"
  trace :: "effect list"

text \<open>What \<^verbatim>\<open>ImportService.getPendingUploads()\<close> resolves to.\<close>

record pending_desktop_upload =
  pending_files :: "file_ref list option"
  pending_collectionName :: "string option"
  pending_type :: "upload_type option"

text \<open>
  The collaborators. A field ending in \<open>_res\<close> is what the awaited call gives:
  \<open>None\<close> or \<open>Inr\<close> when the promise resolves, \<open>Some e\<close> or \<open>Inl e\<close> when it
  rejects with \<open>e\<close>. \<open>createAlbum_res k\<close> is the answer to the \<open>k\<close>-th call of
  \<^verbatim>\<open>createAlbum\<close> in one pass (counted from 0), so the service may answer the same
  name differently each time. \<open>queueFilesForUpload_res\<close> and \<open>retryFailedFiles_res\<close>
  also give the manager the calls leave behind. \<open>parentFolder\<close> is the group key that
  \<^verbatim>\<open>groupFilesBasedOnParentFolder\<close> derives from a file's path.
\<close>

record env =
  isElectron :: bool
  checkAllElectronAPIsExists :: bool
  isCanvasBlocked :: bool
  getPendingUploads :: pending_desktop_upload
  getImportSuggestion :: "upload_type option \<Rightarrow> file_ref list option \<Rightarrow> import_suggestion"
  parentFolder :: "file_ref \<Rightarrow> string"
  syncWithRemote_res :: "custom_error option"
  syncCollections_res :: "custom_error + collection list"
  createAlbum_res :: "nat \<Rightarrow> string option \<Rightarrow> collection list \<Rightarrow> custom_error + collection"
  setToUploadCollection_res :: "custom_error option"
  setToUploadFiles_res :: "upload_type \<Rightarrow> custom_error option"
  queueFilesForUpload_res ::
    "file_with_collection list \<Rightarrow> collection list \<Rightarrow> upload_manager
       \<Rightarrow> custom_error option \<times> upload_manager"
  retryFailedFiles_res ::
    "file_with_collection list \<Rightarrow> upload_manager \<Rightarrow> custom_error option \<times> upload_manager"

definition FIRST_ALBUM_NAME :: string where
  "FIRST_ALBUM_NAME = ''My First Album''"

text \<open>JavaScript truthiness of a string that may be absent: \<^verbatim>\<open>null\<close>, \<^verbatim>\<open>undefined\<close>
  and the empty string are falsy.\<close>

fun truthy :: "string option \<Rightarrow> bool" where
  "truthy None = False"
| "truthy (Some s) = (s \<noteq> [])"

text \<open>\<^verbatim>\<open>xs?.length > 0\<close> on a list that may be \<^verbatim>\<open>null\<close>.\<close>

fun nonEmpty :: "'a list option \<Rightarrow> bool" where
  "nonEmpty None = False"
| "nonEmpty (Some xs) = (xs \<noteq> [])"

definition emit :: "effect \<Rightarrow> uploader_state \<Rightarrow> uploader_state" where
  "emit e s = s\<lparr>trace := trace s @ [e]\<rparr>"

text \<open>The state of a freshly mounted component: the initial values of its
  \<^verbatim>\<open>useState\<close> and \<^verbatim>\<open>useRef\<close> cells. \<^verbatim>\<open>DEFAULT_IMPORT_SUGGESTION\<close>, the shared files
  of the app context, the parent's in-progress flag and the manager are parameters.\<close>

definition initialState ::
  "import_suggestion \<Rightarrow> file_ref list option \<Rightarrow> bool \<Rightarrow> upload_manager \<Rightarrow> uploader_state" where
  "initialState DEFAULT_IMPORT_SUGGESTION shared inProgress m =
     \<lparr>uploadProgressView = False, choiceModalView = False,
      importSuggestion = DEFAULT_IMPORT_SUGGESTION, toUploadFiles = None,
      isPendingDesktopUpload = False, pendingDesktopUploadCollectionName = Some [],
      uploadType = None, zipPaths = None, electronFiles = None, webFiles = [],
      sharedFiles = shared, uploadInProgress = inProgress, manager = m,
      suspendedCalls = [], trace = []\<rparr>"

subsection \<open>Sequencing calls that may throw\<close>

text \<open>\<open>seq f g\<close> runs \<open>f\<close>, and \<open>g\<close> only when \<open>f\<close> did not throw.\<close>

definition seq ::
  "(uploader_state \<Rightarrow> custom_error option \<times> uploader_state)
     \<Rightarrow> (uploader_state \<Rightarrow> custom_error option \<times> uploader_state)
     \<Rightarrow> uploader_state \<Rightarrow> custom_error option \<times> uploader_state" where
  "seq f g s = (case f s of (Some e, s') \<Rightarrow> (Some e, s') | (None, s') \<Rightarrow> g s')"

subsection \<open>Before and after an upload\<close>

definition closeUploadProgress :: "uploader_state \<Rightarrow> uploader_state" where
  "closeUploadProgress s = s\<lparr>uploadProgressView := False\<rparr>"

text \<open>\<^verbatim>\<open>props.setUploadInProgress\<close>: the setter of the flag that the parent passes back
  as \<^verbatim>\<open>props.uploadInProgress\<close>.\<close>

definition setUploadInProgress :: "bool \<Rightarrow> uploader_state \<Rightarrow> uploader_state" where
  "setUploadInProgress b s = (emit (SetUploadInProgress b) s)\<lparr>uploadInProgress := b\<rparr>"

text \<open>Modelled from the spec: \<^verbatim>\<open>uploadManager.prepareForNewUpload()\<close> (not under
  \<^verbatim>\<open>src/\<close>) resets \<^verbatim>\<open>UploadBatchState\<close> to empty/zero.\<close>

definition prepareForNewUpload :: "uploader_state \<Rightarrow> uploader_state" where
  "prepareForNewUpload s =
     (emit PrepareForNewUpload s)\<lparr>manager := (manager s)\<lparr>batch := emptyBatchState\<rparr>\<rparr>"

definition preUploadAction :: "env \<Rightarrow> uploader_state \<Rightarrow> custom_error option \<times> uploader_state" where
  "preUploadAction en s =
     (let s1 = emit CloseCollectionSelector s;
          s2 = emit CloseUploadTypeSelector s1;
          s3 = prepareForNewUpload s2;
          s4 = s3\<lparr>uploadProgressView := True\<rparr>;
          s5 = setUploadInProgress True s4;
          s6 = emit (SyncWithRemote (Some True) (Some True)) s5
      in (syncWithRemote_res en, s6))"

definition postUploadAction :: "uploader_state \<Rightarrow> uploader_state" where
  "postUploadAction s = emit (SyncWithRemote None None) (setUploadInProgress False s)"

fun showUserFacingError :: "custom_error \<Rightarrow> uploader_state \<Rightarrow> uploader_state" where
  "showUserFacingError SESSION_EXPIRED s = emit ShowSessionExpiredMessage s"
| "showUserFacingError SUBSCRIPTION_EXPIRED s =
     emit (SetNotificationAttributes
       \<lparr>variant = ''danger'', notification_message = MSG_SUBSCRIPTION_EXPIRED,
        notification_action = Some UPGRADE_NOW, discFullIcon = False\<rparr>) s"
| "showUserFacingError STORAGE_QUOTA_EXCEEDED s =
     emit (SetNotificationAttributes
       \<lparr>variant = ''danger'', notification_message = MSG_STORAGE_QUOTA_EXCEEDED,
        notification_action = Some RENEW_NOW, discFullIcon = True\<rparr>) s"
| "showUserFacingError (OtherError msg) s =
     emit (SetNotificationAttributes
       \<lparr>variant = ''danger'', notification_message = MSG_UNKNOWN_ERROR,
        notification_action = None, discFullIcon = False\<rparr>) s"

subsection \<open>uploadFiles\<close>

definition setToUploadCollection ::
  "env \<Rightarrow> collection list \<Rightarrow> uploader_state \<Rightarrow> custom_error option \<times> uploader_state" where
  "setToUploadCollection en colls s =
     (setToUploadCollection_res en, emit (SetToUploadCollection colls) s)"

definition setToUploadFiles ::
  "env \<Rightarrow> upload_type \<Rightarrow> string option list \<Rightarrow> uploader_state
     \<Rightarrow> custom_error option \<times> uploader_state" where
  "setToUploadFiles en ty paths s =
     (setToUploadFiles_res en ty, emit (SetToUploadFiles ty paths) s)"

text \<open>\<^verbatim>\<open>if (zipPaths.current) { await setToUploadFiles(ZIPS, ...); zipPaths.current = null }\<close>\<close>

definition persistZipPaths :: "env \<Rightarrow> uploader_state \<Rightarrow> custom_error option \<times> uploader_state" where
  "persistZipPaths en s =
     (case zipPaths s of
        None \<Rightarrow> (None, s)
      | Some zs \<Rightarrow>
          seq (setToUploadFiles en ZIPS (map Some zs)) (\<lambda>s'. (None, s'\<lparr>zipPaths := None\<rparr>)) s)"

text \<open>The block guarded by \<^verbatim>\<open>isElectron() && !isPendingDesktopUpload.current\<close>.\<close>

definition persistPendingUpload ::
  "env \<Rightarrow> file_with_collection list \<Rightarrow> collection list \<Rightarrow> uploader_state
     \<Rightarrow> custom_error option \<times> uploader_state" where
  "persistPendingUpload en items colls s =
     (if isElectron en \<and> \<not> isPendingDesktopUpload s
      then seq (setToUploadCollection en colls)
             (seq (persistZipPaths en)
                (setToUploadFiles en FILES (map (\<lambda>it. filePath (fileRef it)) items))) s
      else (None, s))"

definition queueFilesForUpload ::
  "env \<Rightarrow> file_with_collection list \<Rightarrow> collection list \<Rightarrow> uploader_state
     \<Rightarrow> custom_error option \<times> uploader_state" where
  "queueFilesForUpload en items colls s =
     (let s1 = emit (QueueFilesForUpload items colls) s;
          r = queueFilesForUpload_res en items colls (manager s1)
      in (fst r, s1\<lparr>manager := snd r\<rparr>))"

text \<open>The \<^verbatim>\<open>try\<close> block of \<^verbatim>\<open>uploadFiles\<close>.\<close>

definition uploadFiles_try ::
  "env \<Rightarrow> file_with_collection list \<Rightarrow> collection list \<Rightarrow> uploader_state
     \<Rightarrow> custom_error option \<times> uploader_state" where
  "uploadFiles_try en items colls =
     seq (persistPendingUpload en items colls) (queueFilesForUpload en items colls)"

text \<open>\<^verbatim>\<open>try { ... } catch (err) { showUserFacingError; closeUploadProgress; throw err }
  finally { postUploadAction() }\<close>\<close>

definition uploadFiles ::
  "env \<Rightarrow> file_with_collection list \<Rightarrow> collection list \<Rightarrow> uploader_state
     \<Rightarrow> custom_error option \<times> uploader_state" where
  "uploadFiles en items colls s =
     (case uploadFiles_try en items colls s of
        (Some err, s1) \<Rightarrow>
          (Some err, postUploadAction (closeUploadProgress (showUserFacingError err s1)))
      | (None, s1) \<Rightarrow> (None, postUploadAction s1))"

subsection \<open>Upload to an existing collection\<close>

text \<open>\<^verbatim>\<open>toUploadFiles.current.map((file, index) => ({file, localID: index, collectionID}))\<close>\<close>

definition filesWithCollectionForExisting ::
  "file_ref list \<Rightarrow> collection \<Rightarrow> file_with_collection list" where
  "filesWithCollectionForExisting files c =
     map (\<lambda>(index, f). \<lparr>fileRef = f, localID = index, collectionID = collection_id c\<rparr>)
       (enumerate 0 files)"

definition uploadFilesToExistingCollection_try ::
  "env \<Rightarrow> collection \<Rightarrow> uploader_state \<Rightarrow> custom_error option \<times> uploader_state" where
  "uploadFilesToExistingCollection_try en c =
     seq (preUploadAction en)
       (\<lambda>s. case toUploadFiles s of
              None \<Rightarrow> (Some TypeError, s)
            | Some files \<Rightarrow> uploadFiles en (filesWithCollectionForExisting files c) [c] s)"

definition uploadFilesToExistingCollection :: "env \<Rightarrow> collection \<Rightarrow> uploader_state \<Rightarrow> uploader_state" where
  "uploadFilesToExistingCollection en c s =
     (case uploadFilesToExistingCollection_try en c s of
        (Some e, s') \<Rightarrow> emit (LogError e ''Failed to upload files to existing collections'') s'
      | (None, s') \<Rightarrow> s')"

subsection \<open>Upload to new collections\<close>

text \<open>
  Modelled from the spec: \<^verbatim>\<open>groupFilesBasedOnParentFolder\<close> (\<^verbatim>\<open>utils/upload\<close>, not
  under \<^verbatim>\<open>src/\<close>) partitions the batch by each file's folder component into a
  \<^verbatim>\<open>Map\<close> from group name to files, the groups in first-encountered order. The
  \<^verbatim>\<open>Map\<close> is an association list; a file whose key is already present joins that
  entry, any other key opens a new entry at the end.
\<close>

fun addToGroup ::
  "string \<Rightarrow> file_ref \<Rightarrow> (string \<times> file_ref list) list \<Rightarrow> (string \<times> file_ref list) list" where
  "addToGroup k f [] = [(k, [f])]"
| "addToGroup k f ((k', fs) # rest) =
     (if k = k' then (k', fs @ [f]) # rest else (k', fs) # addToGroup k f rest)"

definition groupFilesBasedOnParentFolder ::
  "(file_ref \<Rightarrow> string) \<Rightarrow> file_ref list \<Rightarrow> (string \<times> file_ref list) list" where
  "groupFilesBasedOnParentFolder key files = foldl (\<lambda>m f. addToGroup (key f) f m) [] files"

text \<open>
  \<^verbatim>\<open>collectionNameToFilesMap\<close>: one entry under the given name for
  \<^verbatim>\<open>SINGLE_COLLECTION\<close> (the name and the files are stored as they are, absent or
  not), the grouping by folder otherwise, which iterates the files and so throws when
  they are \<^verbatim>\<open>null\<close>.
\<close>

definition collectionNameToFilesMap ::
  "env \<Rightarrow> upload_strategy \<Rightarrow> string option \<Rightarrow> uploader_state
     \<Rightarrow> custom_error + (string option \<times> file_ref list option) list" where
  "collectionNameToFilesMap en strategy collectionName s =
     (if strategy = SINGLE_COLLECTION then Inr [(collectionName, toUploadFiles s)]
      else case toUploadFiles s of
             None \<Rightarrow> Inl TypeError
           | Some files \<Rightarrow>
               Inr (map (\<lambda>(k, fs). (Some k, Some fs))
                      (groupFilesBasedOnParentFolder (parentFolder en) files)))"

text \<open>
  The \<^verbatim>\<open>for ... of collectionNameToFilesMap\<close> loop. \<open>index\<close> is the loop's
  \<^verbatim>\<open>index\<close> variable, \<open>colls\<close> and \<open>items\<close> are \<^verbatim>\<open>collections\<close> and
  \<^verbatim>\<open>filesWithCollectionToUpload\<close> so far. \<^verbatim>\<open>files.map\<close> throws when the entry's
  files are \<^verbatim>\<open>null\<close>.
\<close>

fun createAlbums ::
  "env \<Rightarrow> collection list \<Rightarrow> (string option \<times> file_ref list option) list \<Rightarrow> nat
     \<Rightarrow> collection list \<Rightarrow> file_with_collection list \<Rightarrow> uploader_state
     \<Rightarrow> (custom_error + file_with_collection list \<times> collection list) \<times> uploader_state" where
  "createAlbums en existing [] index colls items s = (Inr (items, colls), s)"
| "createAlbums en existing ((name, files) # rest) index colls items s =
     (let s1 = emit (CreateAlbum name existing) s in
      case createAlbum_res en (length colls) name existing of
        Inl e \<Rightarrow> (Inl e, s1)
      | Inr c \<Rightarrow>
          (case files of
             None \<Rightarrow> (Inl TypeError, s1)
           | Some fs \<Rightarrow>
               createAlbums en existing rest (index + length fs) (colls @ [c])
                 (items @ map (\<lambda>(i, f). \<lparr>fileRef = f, localID = i,
                                          collectionID = collection_id c\<rparr>)
                            (enumerate index fs))
                 s1))"

text \<open>The inner \<^verbatim>\<open>try\<close> block: \<^verbatim>\<open>syncCollections()\<close>, then the loop.\<close>

definition resolveCollections_try ::
  "env \<Rightarrow> (string option \<times> file_ref list option) list \<Rightarrow> uploader_state
     \<Rightarrow> (custom_error + file_with_collection list \<times> collection list) \<times> uploader_state" where
  "resolveCollections_try en groups s =
     (let s1 = emit SyncCollections s in
      case syncCollections_res en of
        Inl e \<Rightarrow> (Inl e, s1)
      | Inr existing \<Rightarrow> createAlbums en existing groups 0 [] [] s1)"

text \<open>The inner \<^verbatim>\<open>try\<close> with its \<^verbatim>\<open>catch\<close>, which closes the progress dialog, logs,
  shows the dialog and throws the error again.\<close>

definition resolveCollections ::
  "env \<Rightarrow> (string option \<times> file_ref list option) list \<Rightarrow> uploader_state
     \<Rightarrow> (custom_error + file_with_collection list \<times> collection list) \<times> uploader_state" where
  "resolveCollections en groups s =
     (case resolveCollections_try en groups s of
        (Inl e, s') \<Rightarrow>
          (Inl e, emit (SetDialogMessage CREATE_ALBUM_FAILED_DIALOG)
                    (emit (LogError e ''Failed to create album'') (closeUploadProgress s')))
      | (Inr r, s') \<Rightarrow> (Inr r, s'))"

text \<open>The outer \<^verbatim>\<open>try\<close> block of \<^verbatim>\<open>uploadFilesToNewCollections\<close>.\<close>

definition uploadFilesToNewCollections_try ::
  "env \<Rightarrow> upload_strategy \<Rightarrow> string option \<Rightarrow> uploader_state
     \<Rightarrow> custom_error option \<times> uploader_state" where
  "uploadFilesToNewCollections_try en strategy collectionName =
     seq (preUploadAction en)
       (\<lambda>s. case collectionNameToFilesMap en strategy collectionName s of
              Inl e \<Rightarrow> (Some e, s)
            | Inr groups \<Rightarrow>
                (case resolveCollections en groups s of
                   (Inl e, s') \<Rightarrow> (Some e, s')
                 | (Inr (items, colls), s') \<Rightarrow> uploadFiles en items colls s'))"

definition uploadFilesToNewCollections ::
  "env \<Rightarrow> upload_strategy \<Rightarrow> string option \<Rightarrow> uploader_state \<Rightarrow> uploader_state" where
  "uploadFilesToNewCollections en strategy collectionName s =
     (case uploadFilesToNewCollections_try en strategy collectionName s of
        (Some e, s') \<Rightarrow> emit (LogError e ''Failed to upload files to new collections'') s'
      | (None, s') \<Rightarrow> s')"

text \<open>
  The same function where the caller does not await it. The first \<^verbatim>\<open>await\<close> is the one
  in \<^verbatim>\<open>preUploadAction\<close>, on \<^verbatim>\<open>props.syncWithRemote(true, true)\<close>: up to there the call
  runs at once, the rest is suspended. The rest starts with the outcome of that sync.
\<close>

definition uploadFilesToNewCollections_unawaited ::
  "env \<Rightarrow> upload_strategy \<Rightarrow> string option \<Rightarrow> uploader_state \<Rightarrow> uploader_state" where
  "uploadFilesToNewCollections_unawaited en strategy collectionName s =
     (let s1 = snd (preUploadAction en s)
      in s1\<lparr>suspendedCalls :=
               suspendedCalls s1 @ [UploadFilesToNewCollections_rest strategy collectionName]\<rparr>)"

definition uploadFilesToNewCollections_rest ::
  "env \<Rightarrow> upload_strategy \<Rightarrow> string option \<Rightarrow> uploader_state \<Rightarrow> uploader_state" where
  "uploadFilesToNewCollections_rest en strategy collectionName s =
     (case (case syncWithRemote_res en of
              Some e \<Rightarrow> (Some e, s)
            | None \<Rightarrow>
                (case collectionNameToFilesMap en strategy collectionName s of
                   Inl e \<Rightarrow> (Some e, s)
                 | Inr groups \<Rightarrow>
                     (case resolveCollections en groups s of
                        (Inl e, s') \<Rightarrow> (Some e, s')
                      | (Inr (items, colls), s') \<Rightarrow> uploadFiles en items colls s'))) of
        (Some e, s') \<Rightarrow> emit (LogError e ''Failed to upload files to new collections'') s'
      | (None, s') \<Rightarrow> s')"

subsection \<open>Retry and cancel\<close>

text \<open>
  Modelled from the spec: \<^verbatim>\<open>uploadManager.retryFailedFiles()\<close> (not under \<^verbatim>\<open>src/\<close>)
  re-enqueues only the items whose last recorded outcome was Failed; with no such item
  it is a no-op. What re-enqueuing does is the environment's.
\<close>

definition retryFailedFiles :: "env \<Rightarrow> uploader_state \<Rightarrow> custom_error option \<times> uploader_state" where
  "retryFailedFiles en s =
     (let s1 = emit RetryFailedFiles s;
          failed = failedItems (batch (manager s1))
      in if failed = [] then (None, s1)
         else (let r = retryFailedFiles_res en failed (manager s1)
               in (fst r, s1\<lparr>manager := snd r\<rparr>)))"

definition retryFailed :: "env \<Rightarrow> uploader_state \<Rightarrow> uploader_state" where
  "retryFailed en s =
     (case seq (preUploadAction en) (retryFailedFiles en) s of
        (Some err, s1) \<Rightarrow> postUploadAction (closeUploadProgress (showUserFacingError err s1))
      | (None, s1) \<Rightarrow> postUploadAction s1)"

text \<open>\<^verbatim>\<open>retryFailed\<close> with the call of the upload manager as a parameter \<open>q\<close>, for
  what holds whatever that call does.\<close>

definition retryFailed_with ::
  "(uploader_state \<Rightarrow> custom_error option \<times> uploader_state) \<Rightarrow> env \<Rightarrow> uploader_state
     \<Rightarrow> uploader_state" where
  "retryFailed_with q en s =
     (case seq (preUploadAction en) q s of
        (Some err, s1) \<Rightarrow> postUploadAction (closeUploadProgress (showUserFacingError err s1))
      | (None, s1) \<Rightarrow> postUploadAction s1)"

text \<open>
  Modelled from the spec: \<^verbatim>\<open>Router.reload()\<close> (\<^verbatim>\<open>next/router\<close>) reloads the page; the
  upload manager of the page is gone with it, so its batch state is cleared and nothing
  is left to dequeue.
\<close>

definition routerReload :: "uploader_state \<Rightarrow> uploader_state" where
  "routerReload s =
     (emit RouterReload s)\<lparr>manager := \<lparr>batch = emptyBatchState, queued = []\<rparr>\<rparr>"

definition cancelUploads :: "env \<Rightarrow> uploader_state \<Rightarrow> uploader_state" where
  "cancelUploads en s =
     (let s1 = closeUploadProgress s;
          s2 = (if isElectron en then emit CancelRemainingUploads s1 else s1);
          s3 = setUploadInProgress False s2
      in routerReload s3)"

subsection \<open>Choosing the collection\<close>

definition showCollectionCreateModal :: "uploader_state \<Rightarrow> uploader_state" where
  "showCollectionCreateModal s = emit SetCollectionNamerAttributes s"

definition uploadToSingleNewCollection ::
  "env \<Rightarrow> string option \<Rightarrow> uploader_state \<Rightarrow> uploader_state" where
  "uploadToSingleNewCollection en collectionName s =
     (if truthy collectionName
      then uploadFilesToNewCollections en SINGLE_COLLECTION collectionName s
      else showCollectionCreateModal s)"

text \<open>The same where the caller goes on after the call: the upload it starts is
  suspended at its first \<^verbatim>\<open>await\<close>.\<close>

definition uploadToSingleNewCollection_unawaited ::
  "env \<Rightarrow> string option \<Rightarrow> uploader_state \<Rightarrow> uploader_state" where
  "uploadToSingleNewCollection_unawaited en collectionName s =
     (if truthy collectionName
      then uploadFilesToNewCollections_unawaited en SINGLE_COLLECTION collectionName s
      else showCollectionCreateModal s)"

text \<open>
  The suggestion passed in is the object that the files-arrived effect has just stored
  with \<^verbatim>\<open>setImportSuggestion\<close>, so the assignment to its \<^verbatim>\<open>rootFolderName\<close> is seen
  through the state cell as well. The uploads of the first two branches are not awaited,
  and the caller goes on: they are suspended at their first \<^verbatim>\<open>await\<close>.
\<close>

definition handleCollectionCreationAndUpload ::
  "env \<Rightarrow> import_suggestion \<Rightarrow> bool \<Rightarrow> uploader_state \<Rightarrow> uploader_state" where
  "handleCollectionCreationAndUpload en suggestion isFirstUpload s =
     (if isPendingDesktopUpload s then
        (let s1 = s\<lparr>isPendingDesktopUpload := False\<rparr> in
         if truthy (pendingDesktopUploadCollectionName s1)
         then (uploadToSingleNewCollection_unawaited en
                 (pendingDesktopUploadCollectionName s1) s1)
                \<lparr>pendingDesktopUploadCollectionName := None\<rparr>
         else uploadFilesToNewCollections_unawaited en COLLECTION_PER_FOLDER None s1)
      else if isElectron en \<and> uploadType s = Some ZIPS then
        uploadFilesToNewCollections_unawaited en COLLECTION_PER_FOLDER None s
      else
        (let suggestion' =
               (if isFirstUpload \<and> \<not> truthy (rootFolderName suggestion)
                then suggestion\<lparr>rootFolderName := Some FIRST_ALBUM_NAME\<rparr>
                else suggestion);
             showNextModal =
               (if hasNestedFolders suggestion' then ShowChoiceModal
                else UploadToSingleNew (rootFolderName suggestion'))
         in emit (SetCollectionSelectorAttributes showNextModal)
              (s\<lparr>importSuggestion := suggestion'\<rparr>)))"


text \<open>\<^verbatim>\<open>uploadToSingleCollection\<close> of the strategy choice modal.\<close>

definition choiceModal_uploadToSingleCollection :: "env \<Rightarrow> uploader_state \<Rightarrow> uploader_state" where
  "choiceModal_uploadToSingleCollection en s =
     uploadToSingleNewCollection en (rootFolderName (importSuggestion s)) s"

subsection \<open>Files arrive; a pending desktop upload is resumed\<close>

definition resumeDesktopUpload ::
  "upload_type option \<Rightarrow> file_ref list option \<Rightarrow> string option \<Rightarrow> uploader_state
     \<Rightarrow> uploader_state" where
  "resumeDesktopUpload ty files collectionName s =
     (if nonEmpty files
      then s\<lparr>isPendingDesktopUpload := True,
             pendingDesktopUploadCollectionName := collectionName,
             uploadType := ty,
             electronFiles := files\<rparr>
      else s)"

text \<open>The effect that runs once when the component is mounted. It calls
  \<^verbatim>\<open>getPendingUploads()\<close> and leaves the \<^verbatim>\<open>then\<close> callback to run when the promise
  resolves.\<close>

definition mountEffect :: "env \<Rightarrow> uploader_state \<Rightarrow> uploader_state" where
  "mountEffect en s =
     (let s1 = emit UploadManagerInit s in
      if isElectron en \<and> checkAllElectronAPIsExists en
      then (let s2 = emit GetPendingUploads s1
            in s2\<lparr>suspendedCalls := suspendedCalls s2 @ [PendingUploadsCallback]\<rparr>)
      else s1)"

text \<open>Which files become \<^verbatim>\<open>toUploadFiles.current\<close>. \<^verbatim>\<open>resetSharedFiles\<close> of the app
  context (not under \<^verbatim>\<open>src/\<close>) is taken to drop the shared files.\<close>

definition takeArrivedFiles :: "uploader_state \<Rightarrow> uploader_state" where
  "takeArrivedFiles s =
     (if webFiles s \<noteq> [] then s\<lparr>toUploadFiles := Some (webFiles s), webFiles := []\<rparr>
      else if nonEmpty (sharedFiles s)
        then emit ResetSharedFiles (s\<lparr>toUploadFiles := sharedFiles s, sharedFiles := None\<rparr>)
      else if nonEmpty (electronFiles s)
        then s\<lparr>toUploadFiles := electronFiles s, electronFiles := Some []\<rparr>
      else s)"

text \<open>The effect on \<^verbatim>\<open>[webFiles, appContext.sharedFiles, electronFiles]\<close>.\<close>

definition filesArrived :: "env \<Rightarrow> bool \<Rightarrow> uploader_state \<Rightarrow> uploader_state" where
  "filesArrived en isFirstUpload s =
     (if nonEmpty (electronFiles s) \<or> webFiles s \<noteq> [] \<or> nonEmpty (sharedFiles s) then
        (if uploadInProgress s then s
         else if isCanvasBlocked en then emit (SetDialogMessage CANVAS_BLOCKED_DIALOG) s
         else
           (let s1 = takeArrivedFiles (emit (SetLoading True) s);
                suggestion = getImportSuggestion en (uploadType s1) (toUploadFiles s1);
                s2 = s1\<lparr>importSuggestion := suggestion\<rparr>;
                s3 = handleCollectionCreationAndUpload en suggestion isFirstUpload s2
            in emit (SetLoading False) s3))
      else s)"

subsection \<open>Suspended calls resume\<close>

fun resumeCall :: "env \<Rightarrow> suspended_call \<Rightarrow> uploader_state \<Rightarrow> uploader_state" where
  "resumeCall en PendingUploadsCallback s =
     (let p = getPendingUploads en
      in resumeDesktopUpload (pending_type p) (pending_files p) (pending_collectionName p) s)"
| "resumeCall en (UploadFilesToNewCollections_rest strategy collectionName) s =
     uploadFilesToNewCollections_rest en strategy collectionName s"

text \<open>The oldest suspended call goes on.\<close>

definition resumeNext :: "env \<Rightarrow> uploader_state \<Rightarrow> uploader_state" where
  "resumeNext en s =
     (case suspendedCalls s of
        [] \<Rightarrow> s
      | c # cs \<Rightarrow> resumeCall en c (s\<lparr>suspendedCalls := cs\<rparr>))"

text \<open>
  A start of the process, from a freshly mounted component: the mount effect and the first
  run of the files-arrived effect, then the callback of \<^verbatim>\<open>getPendingUploads()\<close>, the
  files-arrived effect again (its dependency \<^verbatim>\<open>electronFiles\<close> may have changed), and
  the call that this run left suspended. The further runs of the files-arrived effect
  that React makes when the effect itself has emptied a list find nothing waiting and
  change nothing.
\<close>

definition restart :: "env \<Rightarrow> bool \<Rightarrow> uploader_state \<Rightarrow> uploader_state" where
  "restart en isFirstUpload s0 =
     resumeNext en
       (filesArrived en isFirstUpload
          (resumeNext en
             (filesArrived en isFirstUpload (mountEffect en s0))))"

subsection \<open>Reading the trace\<close>

text \<open>The effects a handler adds to the trace of the state it starts in.\<close>

definition newEffects :: "uploader_state \<Rightarrow> uploader_state \<Rightarrow> effect list" where
  "newEffects s s' = drop (length (trace s)) (trace s')"

text \<open>The notifications of \<^verbatim>\<open>showUserFacingError\<close>.\<close>

fun isUserFacing :: "effect \<Rightarrow> bool" where
  "isUserFacing ShowSessionExpiredMessage = True"
| "isUserFacing (SetNotificationAttributes n) = True"
| "isUserFacing e = False"

text \<open>The calls that persist a pending desktop upload.\<close>

fun isImportServiceCall :: "effect \<Rightarrow> bool" where
  "isImportServiceCall (SetToUploadCollection c) = True"
| "isImportServiceCall (SetToUploadFiles t p) = True"
| "isImportServiceCall e = False"

fun isCreateAlbum :: "effect \<Rightarrow> bool" where
  "isCreateAlbum (CreateAlbum n ex) = True"
| "isCreateAlbum e = False"

text \<open>The pairs of a file and a collection id that a list of groups gives, each group
  with the collection at its position.\<close>

definition pairWithCollections ::
  "(string option \<times> file_ref list option) list \<Rightarrow> collection list \<Rightarrow> (file_ref \<times> int) list" where
  "pairWithCollections groups colls =
     concat (map (\<lambda>((name, files), c).
                    map (\<lambda>f. (f, collection_id c)) (case files of None \<Rightarrow> [] | Some fs \<Rightarrow> fs))
                 (zip groups colls))"

text \<open>The cells that no upload function writes.\<close>

definition cells ::
  "uploader_state \<Rightarrow> bool \<times> import_suggestion \<times> file_ref list option \<times> bool \<times> string option
     \<times> upload_type option \<times> file_ref list option \<times> file_ref list \<times> file_ref list option
     \<times> suspended_call list" where
  "cells s = (choiceModalView s, importSuggestion s, toUploadFiles s, isPendingDesktopUpload s,
     pendingDesktopUploadCollectionName s, uploadType s, electronFiles s, webFiles s, sharedFiles s,
     suspendedCalls s)"

subsection \<open>Sample values\<close>

definition file_a :: file_ref where
  "file_a = \<lparr>fileName = ''a.jpg'', filePath = Some ''/trip/a.jpg''\<rparr>"

definition file_b :: file_ref where
  "file_b = \<lparr>fileName = ''b.jpg'', filePath = Some ''/home/b.jpg''\<rparr>"

definition file_c :: file_ref where
  "file_c = \<lparr>fileName = ''c.jpg'', filePath = Some ''/trip/c.jpg''\<rparr>"

definition sampleManager :: upload_manager where
  "sampleManager = \<lparr>batch = emptyBatchState, queued = []\<rparr>"

text \<open>A desktop environment in which every call succeeds; the \<open>k\<close>-th album created
  gets the id \<open>k + 1\<close>.\<close>

definition sampleEnv :: env where
  "sampleEnv =
     \<lparr>isElectron = True, checkAllElectronAPIsExists = True, isCanvasBlocked = False,
      getPendingUploads =
        \<lparr>pending_files = Some [file_a, file_b, file_c],
         pending_collectionName = Some ''Trip'', pending_type = Some FILES\<rparr>,
      getImportSuggestion = (\<lambda>ty files. \<lparr>rootFolderName = None, hasNestedFolders = False\<rparr>),
      parentFolder = (\<lambda>f. case filePath f of None \<Rightarrow> [] | Some p \<Rightarrow> take 5 p),
      syncWithRemote_res = None,
      syncCollections_res = Inr [],
      createAlbum_res =
        (\<lambda>k name existing.
           Inr \<lparr>collection_id = int k + 1,
                collection_name = (case name of None \<Rightarrow> [] | Some n \<Rightarrow> n)\<rparr>),
      setToUploadCollection_res = None,
      setToUploadFiles_res = (\<lambda>ty. None),
      queueFilesForUpload_res =
        (\<lambda>items colls m.
           (None, m\<lparr>batch := (batch m)\<lparr>finished := length items, total := length items\<rparr>\<rparr>)),
      retryFailedFiles_res = (\<lambda>items m. (None, m))\<rparr>"

text \<open>The same, but the second album cannot be created.\<close>

definition albumFailingEnv :: env where
  "albumFailingEnv =
     sampleEnv\<lparr>createAlbum_res :=
       (\<lambda>k name existing.
          if k = 1 then Inl (OtherError ''network'')
          else Inr \<lparr>collection_id = int k + 1,
                    collection_name = (case name of None \<Rightarrow> [] | Some n \<Rightarrow> n)\<rparr>)\<rparr>"

text \<open>The same, but the queueing call rejects: the storage quota is exceeded.\<close>

definition quotaEnv :: env where
  "quotaEnv =
     sampleEnv\<lparr>queueFilesForUpload_res := (\<lambda>items colls m. (Some STORAGE_QUOTA_EXCEEDED, m))\<rparr>"

text \<open>A mounted component that holds three files to upload.\<close>

definition sampleState :: uploader_state where
  "sampleState =
     (initialState \<lparr>rootFolderName = None, hasNestedFolders = False\<rparr> None False sampleManager)
       \<lparr>toUploadFiles := Some [file_a, file_b, file_c]\<rparr>"

text \<open>The same after a finished batch of three files, none of them failed.\<close>

definition finishedState :: uploader_state where
  "finishedState =
     sampleState\<lparr>manager :=
       \<lparr>batch = emptyBatchState\<lparr>finished := 3, total := 3,
                  finishedUploads :=
                    [(\<lparr>fileRef = file_a, localID = 0, collectionID = 1\<rparr>, Succeeded),
                     (\<lparr>fileRef = file_b, localID = 1, collectionID = 1\<rparr>, Succeeded),
                     (\<lparr>fileRef = file_c, localID = 2, collectionID = 1\<rparr>, AlreadyUploaded)]\<rparr>,
        queued = []\<rparr>\<rparr>"

text \<open>The same, but the canvas is blocked.\<close>

definition blockedEnv :: env where
  "blockedEnv = sampleEnv\<lparr>isCanvasBlocked := True\<rparr>"

text \<open>The groups, the batch and the albums of the three sample files, grouped by folder.\<close>

definition sampleGroups :: "(string option \<times> file_ref list option) list" where
  "sampleGroups = [(Some ''/trip'', Some [file_a, file_c]), (Some ''/home'', Some [file_b])]"

definition sampleBatch :: "file_with_collection list" where
  "sampleBatch =
     [\<lparr>fileRef = file_a, localID = 0, collectionID = 1\<rparr>,
      \<lparr>fileRef = file_c, localID = 1, collectionID = 1\<rparr>,
      \<lparr>fileRef = file_b, localID = 2, collectionID = 2\<rparr>]"

definition sampleCollections :: "collection list" where
  "sampleCollections =
     [\<lparr>collection_id = 1, collection_name = ''/trip''\<rparr>,
      \<lparr>collection_id = 2, collection_name = ''/home''\<rparr>]"

text \<open>A component in which an upload is in progress while a web file arrives.\<close>

definition busyState :: uploader_state where
  "busyState = sampleState\<lparr>uploadInProgress := True, webFiles := [file_a]\<rparr>"

text \<open>A freshly mounted component with no shared files and no upload in progress.\<close>

definition freshState :: uploader_state where
  "freshState =
     initialState \<lparr>rootFolderName = None, hasNestedFolders = False\<rparr> None False sampleManager"

text \<open>A batch in flight: \<^verbatim>\<open>uploadFilesToNewCollections\<close> has been called for the three
  sample files and is suspended at its first \<^verbatim>\<open>await\<close>.\<close>

definition inFlightState :: uploader_state where
  "inFlightState = uploadFilesToNewCollections_unawaited sampleEnv COLLECTION_PER_FOLDER None sampleState"

text \<open>The state after a pass that was aborted because the second album could not be
  created.\<close>

definition abortedState :: uploader_state where
  "abortedState = uploadFilesToNewCollections albumFailingEnv COLLECTION_PER_FOLDER None sampleState"

text \<open>A call of the upload manager that rejects: the session has expired.\<close>

definition rejectingRetry :: "uploader_state \<Rightarrow> custom_error option \<times> uploader_state" where
  "rejectingRetry s = (Some SESSION_EXPIRED, emit RetryFailedFiles s)"

section \<open>Properties\<close>

subsection \<open>Auxiliary facts\<close>

lemmas sample_defs = sampleEnv_def albumFailingEnv_def quotaEnv_def blockedEnv_def sampleState_def
  finishedState_def busyState_def sampleManager_def initialState_def file_a_def file_b_def
  file_c_def sampleGroups_def sampleBatch_def sampleCollections_def emptyBatchState_def

lemmas op_defs = emit_def seq_def closeUploadProgress_def setUploadInProgress_def
  prepareForNewUpload_def preUploadAction_def postUploadAction_def setToUploadCollection_def
  setToUploadFiles_def persistZipPaths_def persistPendingUpload_def queueFilesForUpload_def
  uploadFiles_try_def uploadFiles_def filesWithCollectionForExisting_def
  uploadFilesToExistingCollection_try_def uploadFilesToExistingCollection_def
  groupFilesBasedOnParentFolder_def collectionNameToFilesMap_def resolveCollections_try_def
  resolveCollections_def uploadFilesToNewCollections_try_def uploadFilesToNewCollections_def
  retryFailedFiles_def retryFailed_def routerReload_def cancelUploads_def
  showCollectionCreateModal_def uploadToSingleNewCollection_def
  handleCollectionCreationAndUpload_def resumeDesktopUpload_def mountEffect_def
  takeArrivedFiles_def filesArrived_def newEffects_def failedItems_def pairWithCollections_def
  choiceModal_uploadToSingleCollection_def FIRST_ALBUM_NAME_def TypeError_def

lemmas more_defs = freshState_def inFlightState_def abortedState_def rejectingRetry_def
  uploadFilesToNewCollections_unawaited_def uploadFilesToNewCollections_rest_def
  uploadToSingleNewCollection_unawaited_def resumeNext_def restart_def retryFailed_with_def

lemma trace_emit: "trace (emit e s) = trace s @ [e]"
  by (simp add: emit_def)

lemma trace_postUploadAction:
  "trace (postUploadAction s) = trace s @ [SetUploadInProgress False, SyncWithRemote None None]"
  by (simp add: postUploadAction_def setUploadInProgress_def emit_def)


lemma trace_preUploadAction:
  "trace (snd (preUploadAction en s)) = trace s @
     [CloseCollectionSelector, CloseUploadTypeSelector, PrepareForNewUpload,
      SetUploadInProgress True, SyncWithRemote (Some True) (Some True)]"
  by (simp add: preUploadAction_def prepareForNewUpload_def setUploadInProgress_def emit_def Let_def)

lemma trace_persistPendingUpload:
  "\<exists>tr. trace (snd (persistPendingUpload en items colls s)) = trace s @ tr
        \<and> (\<forall>x\<in>set tr. isImportServiceCall x)"
  by (auto simp: persistPendingUpload_def seq_def setToUploadCollection_def persistZipPaths_def
      setToUploadFiles_def emit_def split: option.splits prod.splits)

lemma seq_None: "fst (f s) = None \<Longrightarrow> seq f g s = g (snd (f s))"
  by (cases "f s") (simp add: seq_def)

lemma seq_Some: "fst (f s) = Some e \<Longrightarrow> seq f g s = (Some e, snd (f s))"
  by (cases "f s") (simp add: seq_def)

lemma trace_queueFilesForUpload:
  "trace (snd (queueFilesForUpload en items colls s)) = trace s @ [QueueFilesForUpload items colls]"
  by (simp add: queueFilesForUpload_def emit_def Let_def)

lemma trace_uploadFiles_try:
  "\<exists>tr q. trace (snd (uploadFiles_try en items colls s)) = trace s @ tr @ q
        \<and> (\<forall>x\<in>set tr. isImportServiceCall x) \<and> (q = [] \<or> q = [QueueFilesForUpload items colls])"
proof -
  obtain tr where tr: "trace (snd (persistPendingUpload en items colls s)) = trace s @ tr"
    "\<forall>x\<in>set tr. isImportServiceCall x"
    using trace_persistPendingUpload by blast
  show ?thesis
  proof (cases "fst (persistPendingUpload en items colls s)")
    case None
    then have "trace (snd (uploadFiles_try en items colls s)) = trace s @ tr @ [QueueFilesForUpload items colls]"
      using tr(1) by (simp add: uploadFiles_try_def seq_None trace_queueFilesForUpload)
    with tr(2) show ?thesis by blast
  next
    case (Some e)
    then have "trace (snd (uploadFiles_try en items colls s)) = trace s @ tr @ []"
      using tr(1) by (simp add: uploadFiles_try_def seq_Some)
    with tr(2) show ?thesis by blast
  qed
qed

lemma trace_showUserFacingError:
  "\<exists>x. trace (showUserFacingError err s) = trace s @ [x] \<and> isUserFacing x"
  by (cases err) (simp_all add: emit_def)

subsection \<open>The loop over the groups\<close>

lemma map_localID_enumerate:
  "map (localID \<circ> (\<lambda>(i, f). \<lparr>fileRef = f, localID = i, collectionID = c\<rparr>)) (enumerate n fs)
     = [n..<n + length fs]"
proof (induction fs arbitrary: n)
  case Nil
  show ?case by simp
next
  case (Cons f fs)
  have "[n..<n + length (f # fs)] = n # [Suc n..<Suc n + length fs]"
    by (simp add: upt_rec)
  with Cons show ?case by simp
qed

lemma map_pair_enumerate:
  "map ((\<lambda>it. (fileRef it, collectionID it)) \<circ> (\<lambda>(i, f). \<lparr>fileRef = f, localID = i, collectionID = c\<rparr>))
       (enumerate n fs)
     = map (\<lambda>f. (f, c)) fs"
  by (induction fs arbitrary: n) simp_all

lemma upt_split: "[a..<a + m] @ [a + m..<a + m + k] = [a..<a + (m + k)]"
  by (metis add.assoc le_add1 upt_add_eq_append)

lemma createAlbums_success:
  "createAlbums en ex groups index colls items s = (Inr (items', colls'), s') \<Longrightarrow>
     \<exists>cs its. colls' = colls @ cs \<and> items' = items @ its
       \<and> map Inr cs = map (\<lambda>(i, g). createAlbum_res en i (fst g) ex) (enumerate (length colls) groups)
       \<and> map (\<lambda>it. (fileRef it, collectionID it)) its = pairWithCollections groups cs
       \<and> map localID its = [index..<index + length its]
       \<and> s' = s\<lparr>trace := trace s @ map (\<lambda>g. CreateAlbum (fst g) ex) groups\<rparr>"
proof (induction groups arbitrary: index colls items s)
  case Nil
  then show ?case by (simp add: pairWithCollections_def)
next
  case (Cons g groups)
  obtain name files where g: "g = (name, files)" by (cases g)
  from Cons.prems g obtain c fs where
    c: "createAlbum_res en (length colls) name ex = Inr c" and fs: "files = Some fs"
    by (auto simp: Let_def split: sum.splits option.splits)
  let ?new = "map (\<lambda>(i, f). \<lparr>fileRef = f, localID = i, collectionID = collection_id c\<rparr>) (enumerate index fs)"
  from Cons.prems g c fs have rec:
    "createAlbums en ex groups (index + length fs) (colls @ [c]) (items @ ?new)
       (emit (CreateAlbum name ex) s) = (Inr (items', colls'), s')"
    by (simp add: Let_def)
  from Cons.IH [OF rec] obtain cs its where ih:
    "colls' = (colls @ [c]) @ cs" "items' = (items @ ?new) @ its"
    "map Inr cs = map (\<lambda>(i, g). createAlbum_res en i (fst g) ex) (enumerate (length (colls @ [c])) groups)"
    "map (\<lambda>it. (fileRef it, collectionID it)) its = pairWithCollections groups cs"
    "map localID its = [index + length fs..<index + length fs + length its]"
    "s' = (emit (CreateAlbum name ex) s)\<lparr>trace := trace (emit (CreateAlbum name ex) s) @ map (\<lambda>g. CreateAlbum (fst g) ex) groups\<rparr>"
    by blast
  have 1: "colls' = colls @ (c # cs)" using ih(1) by simp
  have 2: "items' = items @ (?new @ its)" using ih(2) by simp
  have 3: "map Inr (c # cs) = map (\<lambda>(i, g). createAlbum_res en i (fst g) ex) (enumerate (length colls) (g # groups))"
    using ih(3) c g by simp
  have 4: "map (\<lambda>it. (fileRef it, collectionID it)) (?new @ its) = pairWithCollections (g # groups) (c # cs)"
    using ih(4) g fs by (simp add: pairWithCollections_def map_pair_enumerate)
  have "map localID (?new @ its) = [index..<index + length fs] @ [index + length fs..<index + length fs + length its]"
    using ih(5) by (simp add: map_localID_enumerate)
  also have "\<dots> = [index..<index + length (?new @ its)]"
    by (simp add: upt_split)
  finally have 5: "map localID (?new @ its) = [index..<index + length (?new @ its)]" .
  have 6: "s' = s\<lparr>trace := trace s @ map (\<lambda>g. CreateAlbum (fst g) ex) (g # groups)\<rparr>"
    using ih(6) g by (simp add: emit_def)
  from 1 2 3 4 5 6 show ?case by blast
qed

lemma createAlbums_any:
  "\<exists>k. snd (createAlbums en ex groups index colls items s)
         = s\<lparr>trace := trace s @ map (\<lambda>g. CreateAlbum (fst g) ex) (take k groups)\<rparr>"
proof (induction groups arbitrary: index colls items s)
  case Nil
  then show ?case by simp
next
  case (Cons g groups)
  obtain name files where g: "g = (name, files)" by (cases g)
  show ?case
  proof (cases "createAlbum_res en (length colls) name ex")
    case (Inl e)
    then have "snd (createAlbums en ex (g # groups) index colls items s)
         = s\<lparr>trace := trace s @ map (\<lambda>g. CreateAlbum (fst g) ex) (take 1 (g # groups))\<rparr>"
      using g by (simp add: emit_def)
    then show ?thesis by blast
  next
    case (Inr c)
    show ?thesis
    proof (cases files)
      case None
      then have "snd (createAlbums en ex (g # groups) index colls items s)
         = s\<lparr>trace := trace s @ map (\<lambda>g. CreateAlbum (fst g) ex) (take 1 (g # groups))\<rparr>"
        using g Inr by (simp add: emit_def)
      then show ?thesis by blast
    next
      case (Some fs)
      let ?new = "map (\<lambda>(i, f). \<lparr>fileRef = f, localID = i, collectionID = collection_id c\<rparr>) (enumerate index fs)"
      from Cons.IH [of "index + length fs" "colls @ [c]" "items @ ?new" "emit (CreateAlbum name ex) s"]
      obtain k where k: "snd (createAlbums en ex groups (index + length fs) (colls @ [c]) (items @ ?new)
           (emit (CreateAlbum name ex) s))
         = (emit (CreateAlbum name ex) s)\<lparr>trace := trace (emit (CreateAlbum name ex) s) @ map (\<lambda>g. CreateAlbum (fst g) ex) (take k groups)\<rparr>"
        by blast
      have "snd (createAlbums en ex (g # groups) index colls items s)
         = s\<lparr>trace := trace s @ map (\<lambda>g. CreateAlbum (fst g) ex) (take (Suc k) (g # groups))\<rparr>"
        using g Inr Some k by (simp add: emit_def)
      then show ?thesis by blast
    qed
  qed
qed

lemma fst_createAlbums_state:
  "fst (createAlbums en ex groups index colls items s) = fst (createAlbums en ex groups index colls items s')"
proof (induction groups arbitrary: index colls items s s')
  case Nil
  show ?case by simp
next
  case (Cons g groups)
  obtain name files where g: "g = (name, files)" by (cases g)
  show ?case using Cons.IH g
    by (simp add: Let_def split: sum.splits option.splits)
qed

lemma fst_resolveCollections_try_state:
  "fst (resolveCollections_try en groups s) = fst (resolveCollections_try en groups s')"
  using fst_createAlbums_state
  by (simp add: resolveCollections_try_def Let_def split: sum.splits)

lemma snd_resolveCollections_try:
  "\<exists>tr. snd (resolveCollections_try en groups s) = s\<lparr>trace := trace s @ SyncCollections # tr\<rparr>
        \<and> (\<forall>x\<in>set tr. \<exists>n ex. x = CreateAlbum n ex)"
proof (cases "syncCollections_res en")
  case (Inl e)
  then have "snd (resolveCollections_try en groups s) = s\<lparr>trace := trace s @ SyncCollections # []\<rparr>"
    by (simp add: resolveCollections_try_def emit_def)
  then show ?thesis by fastforce
next
  case (Inr ex)
  obtain k where "snd (createAlbums en ex groups 0 [] [] (emit SyncCollections s))
         = (emit SyncCollections s)\<lparr>trace := trace (emit SyncCollections s)
              @ map (\<lambda>g. CreateAlbum (fst g) ex) (take k groups)\<rparr>"
    using createAlbums_any by blast
  with Inr have "snd (resolveCollections_try en groups s)
      = s\<lparr>trace := trace s @ SyncCollections # map (\<lambda>g. CreateAlbum (fst g) ex) (take k groups)\<rparr>"
    by (simp add: resolveCollections_try_def emit_def)
  moreover have "\<forall>x\<in>set (map (\<lambda>g. CreateAlbum (fst g) ex) (take k groups)). \<exists>n ex. x = CreateAlbum n ex"
    by auto
  ultimately show ?thesis by blast
qed

lemma resolveCollections_failure:
  assumes "fst (resolveCollections_try en groups s) = Inl e"
  shows "\<exists>tr. resolveCollections en groups s =
           (Inl e, s\<lparr>uploadProgressView := False,
                     trace := trace s @ SyncCollections # tr @
                       [LogError e ''Failed to create album'',
                        SetDialogMessage CREATE_ALBUM_FAILED_DIALOG]\<rparr>)
        \<and> (\<forall>x\<in>set tr. \<exists>n ex. x = CreateAlbum n ex)"
proof -
  obtain tr where tr: "snd (resolveCollections_try en groups s) = s\<lparr>trace := trace s @ SyncCollections # tr\<rparr>"
    "\<forall>x\<in>set tr. \<exists>n ex. x = CreateAlbum n ex"
    using snd_resolveCollections_try by blast
  from assms tr(1) have "resolveCollections_try en groups s = (Inl e, s\<lparr>trace := trace s @ SyncCollections # tr\<rparr>)"
    by (metis prod.collapse)
  then have "resolveCollections en groups s =
           (Inl e, s\<lparr>uploadProgressView := False,
                     trace := trace s @ SyncCollections # tr @
                       [LogError e ''Failed to create album'',
                        SetDialogMessage CREATE_ALBUM_FAILED_DIALOG]\<rparr>)"
    by (simp add: resolveCollections_def closeUploadProgress_def emit_def)
  with tr(2) show ?thesis by blast
qed

subsection \<open>A failed album creation\<close>

lemma toUploadFiles_preUploadAction:
  "toUploadFiles (snd (preUploadAction en s)) = toUploadFiles s"
  by (simp add: preUploadAction_def prepareForNewUpload_def setUploadInProgress_def emit_def Let_def)

lemma collectionNameToFilesMap_cong:
  "toUploadFiles s = toUploadFiles s' \<Longrightarrow>
     collectionNameToFilesMap en strategy name s = collectionNameToFilesMap en strategy name s'"
  by (simp add: collectionNameToFilesMap_def)

lemma fst_preUploadAction: "fst (preUploadAction en s) = syncWithRemote_res en"
  by (simp add: preUploadAction_def Let_def)

text \<open>
  \<^bold>\<open>C1.\<close> When fetching the existing collections or creating the album of a group fails
  in \<^verbatim>\<open>uploadFilesToNewCollections\<close> (the inner \<^verbatim>\<open>try\<close> block throws \<open>e\<close>), the pass
  stops there: the error is thrown again and leaves the outer \<^verbatim>\<open>try\<close> block, the
  progress dialog is closed, the "album creation failed" dialog is shown, and
  \<^verbatim>\<open>queueFilesForUpload\<close> is not called. The effects added are those of
  \<^verbatim>\<open>preUploadAction\<close>, the fetch, the album creations made until then, the log entry and
  the dialog of the inner handler, and the log entry of the outer handler, which receives
  the same error. The two lemmas after the theorem show that a rejected
  \<^verbatim>\<open>syncCollections\<close> and a rejected \<^verbatim>\<open>createAlbum\<close> for any group are such throws.
\<close>

theorem album_creation_failure_aborts:
  assumes pre: "syncWithRemote_res en = None"
      and groups: "collectionNameToFilesMap en strategy collectionName s = Inr groups"
      and fails: "fst (resolveCollections_try en groups s) = Inl e"
  shows "fst (uploadFilesToNewCollections_try en strategy collectionName s) = Some e
       \<and> uploadProgressView (uploadFilesToNewCollections en strategy collectionName s) = False
       \<and> (\<forall>items colls. QueueFilesForUpload items colls
             \<notin> set (newEffects s (uploadFilesToNewCollections en strategy collectionName s)))
       \<and> (\<exists>tr. (\<forall>x\<in>set tr. \<exists>n ex. x = CreateAlbum n ex)
             \<and> newEffects s (uploadFilesToNewCollections en strategy collectionName s) =
                 [CloseCollectionSelector, CloseUploadTypeSelector, PrepareForNewUpload,
                  SetUploadInProgress True, SyncWithRemote (Some True) (Some True), SyncCollections]
                 @ tr @
                 [LogError e ''Failed to create album'',
                  SetDialogMessage CREATE_ALBUM_FAILED_DIALOG,
                  LogError e ''Failed to upload files to new collections''])"
proof -
  let ?s1 = "snd (preUploadAction en s)"
  have g1: "collectionNameToFilesMap en strategy collectionName ?s1 = Inr groups"
    using groups collectionNameToFilesMap_cong [OF toUploadFiles_preUploadAction] by simp
  have f1: "fst (resolveCollections_try en groups ?s1) = Inl e"
    using fails fst_resolveCollections_try_state by metis
  obtain tr where tr:
    "resolveCollections en groups ?s1 =
           (Inl e, ?s1\<lparr>uploadProgressView := False,
                     trace := trace ?s1 @ SyncCollections # tr @
                       [LogError e ''Failed to create album'',
                        SetDialogMessage CREATE_ALBUM_FAILED_DIALOG]\<rparr>)"
    "\<forall>x\<in>set tr. \<exists>n ex. x = CreateAlbum n ex"
    using resolveCollections_failure [OF f1] by blast
  let ?s2 = "?s1\<lparr>uploadProgressView := False,
                     trace := trace ?s1 @ SyncCollections # tr @
                       [LogError e ''Failed to create album'',
                        SetDialogMessage CREATE_ALBUM_FAILED_DIALOG]\<rparr>"
  have tryres: "uploadFilesToNewCollections_try en strategy collectionName s = (Some e, ?s2)"
    using pre g1 tr(1)
    by (simp add: uploadFilesToNewCollections_try_def seq_None fst_preUploadAction)
  then have fin: "uploadFilesToNewCollections en strategy collectionName s
      = emit (LogError e ''Failed to upload files to new collections'') ?s2"
    by (simp add: uploadFilesToNewCollections_def)
  have new: "newEffects s (uploadFilesToNewCollections en strategy collectionName s) =
                 [CloseCollectionSelector, CloseUploadTypeSelector, PrepareForNewUpload,
                  SetUploadInProgress True, SyncWithRemote (Some True) (Some True), SyncCollections]
                 @ tr @
                 [LogError e ''Failed to create album'',
                  SetDialogMessage CREATE_ALBUM_FAILED_DIALOG,
                  LogError e ''Failed to upload files to new collections'']"
    by (simp add: fin newEffects_def emit_def trace_preUploadAction)
  have noq: "\<forall>items colls. QueueFilesForUpload items colls
             \<notin> set (newEffects s (uploadFilesToNewCollections en strategy collectionName s))"
    using tr(2) by (auto simp: new)
  have view: "uploadProgressView (uploadFilesToNewCollections en strategy collectionName s) = False"
    by (simp add: fin emit_def)
  from tryres new noq view tr(2) show ?thesis by auto
qed

lemma resolveCollections_try_sync_fails:
  "syncCollections_res en = Inl e \<Longrightarrow> fst (resolveCollections_try en groups s) = Inl e"
  by (simp add: resolveCollections_try_def)

lemma createAlbums_fails_at:
  assumes "i < length groups"
      and "\<forall>j<i. \<exists>c fs. createAlbum_res en (length colls + j) (fst (groups ! j)) ex = Inr c
                        \<and> snd (groups ! j) = Some fs"
      and "createAlbum_res en (length colls + i) (fst (groups ! i)) ex = Inl e"
  shows "fst (createAlbums en ex groups index colls items s) = Inl e"
  using assms
proof (induction groups arbitrary: i index colls items s)
  case Nil
  then show ?case by simp
next
  case (Cons g groups)
  obtain name files where g: "g = (name, files)" by (cases g)
  show ?case
  proof (cases i)
    case 0
    with Cons.prems g show ?thesis by simp
  next
    case (Suc i')
    from Cons.prems(2) Suc have "\<exists>c fs. createAlbum_res en (length colls + 0) (fst ((g # groups) ! 0)) ex = Inr c
                        \<and> snd ((g # groups) ! 0) = Some fs"
      by blast
    then obtain c fs where c: "createAlbum_res en (length colls) name ex = Inr c" "files = Some fs"
      using g by auto
    have a: "i' < length groups" using Cons.prems(1) Suc by simp
    have b: "\<forall>j<i'. \<exists>c' fs'. createAlbum_res en (length (colls @ [c]) + j) (fst (groups ! j)) ex = Inr c'
                        \<and> snd (groups ! j) = Some fs'"
    proof (intro allI impI)
      fix j assume "j < i'"
      then have "Suc j < i" using Suc by simp
      with Cons.prems(2) show "\<exists>c' fs'. createAlbum_res en (length (colls @ [c]) + j) (fst (groups ! j)) ex = Inr c'
                        \<and> snd (groups ! j) = Some fs'"
        by fastforce
    qed
    have d: "createAlbum_res en (length (colls @ [c]) + i') (fst (groups ! i')) ex = Inl e"
      using Cons.prems(3) Suc by simp
    from Cons.IH [OF a b d] show ?thesis using g c by simp
  qed
qed

lemma resolveCollections_try_createAlbum_fails:
  assumes "syncCollections_res en = Inr ex" "i < length groups"
      and "\<forall>j<i. \<exists>c fs. createAlbum_res en j (fst (groups ! j)) ex = Inr c \<and> snd (groups ! j) = Some fs"
      and "createAlbum_res en i (fst (groups ! i)) ex = Inl e"
  shows "fst (resolveCollections_try en groups s) = Inl e"
  using assms createAlbums_fails_at [of i groups en "[]" ex e 0 "[]" "emit SyncCollections s"]
  by (simp add: resolveCollections_try_def)

subsection \<open>What follows the queueing call\<close>

text \<open>A pass that is aborted by a failed album creation does not reach \<^verbatim>\<open>uploadFiles\<close>,
  and with it \<^verbatim>\<open>postUploadAction\<close>: the flag that \<^verbatim>\<open>preUploadAction\<close> raised stays up.\<close>

lemma album_failure_leaves_flag_up:
  assumes "syncWithRemote_res en = None"
      and "collectionNameToFilesMap en strategy collectionName s = Inr groups"
      and "fst (resolveCollections_try en groups s) = Inl e"
  shows "uploadInProgress (uploadFilesToNewCollections en strategy collectionName s)"
proof -
  let ?s1 = "snd (preUploadAction en s)"
  have g1: "collectionNameToFilesMap en strategy collectionName ?s1 = Inr groups"
    using assms(2) collectionNameToFilesMap_cong [OF toUploadFiles_preUploadAction] by simp
  have f1: "fst (resolveCollections_try en groups ?s1) = Inl e"
    using assms(3) fst_resolveCollections_try_state by metis
  obtain tr where tr:
    "resolveCollections en groups ?s1 =
           (Inl e, ?s1\<lparr>uploadProgressView := False,
                     trace := trace ?s1 @ SyncCollections # tr @
                       [LogError e ''Failed to create album'',
                        SetDialogMessage CREATE_ALBUM_FAILED_DIALOG]\<rparr>)"
    using resolveCollections_failure [OF f1] by blast
  have "uploadInProgress ?s1"
    by (simp add: preUploadAction_def setUploadInProgress_def prepareForNewUpload_def emit_def Let_def)
  then show ?thesis
    using assms(1) g1 tr
    by (simp add: uploadFilesToNewCollections_def uploadFilesToNewCollections_try_def seq_None
        fst_preUploadAction emit_def)
qed

lemma trace_uploadFiles_failure:
  assumes "uploadFiles_try en items colls s = (Some err, s1)"
  shows "trace (snd (uploadFiles en items colls s)) =
           trace s1 @ drop (length (trace s1)) (trace (showUserFacingError err s1))
             @ [SetUploadInProgress False, SyncWithRemote None None]"
  using assms trace_showUserFacingError [of err s1]
  by (auto simp: uploadFiles_def trace_postUploadAction closeUploadProgress_def)

text \<open>A rejection of the queueing call is such a throw of the \<^verbatim>\<open>try\<close> block.\<close>

lemma uploadFiles_try_queue_rejects:
  assumes "fst (persistPendingUpload en items colls s) = None"
      and "fst (queueFilesForUpload_res en items colls
                  (manager (snd (persistPendingUpload en items colls s)))) = Some err"
  shows "fst (uploadFiles_try en items colls s) = Some err"
  using assms
  by (simp add: uploadFiles_try_def seq_None queueFilesForUpload_def emit_def Let_def)

text \<open>
  \<^bold>\<open>C6.\<close> When the \<^verbatim>\<open>try\<close> block of \<^verbatim>\<open>uploadFiles\<close> (the queueing call, or the
  import service before it) throws \<open>err\<close>, \<^verbatim>\<open>uploadFiles\<close> throws it again and adds
  exactly one user-facing effect, the one that belongs to \<open>err\<close>: the session-expired
  message, a danger notification with the upgrade action, a danger notification with the
  renew action, or the unknown-error notification.
\<close>

theorem queueing_error_shown_once:
  assumes "uploadFiles_try en items colls s = (Some err, s1)"
  shows "fst (uploadFiles en items colls s) = Some err
       \<and> filter isUserFacing (newEffects s (snd (uploadFiles en items colls s))) =
           [case err of
              SESSION_EXPIRED \<Rightarrow> ShowSessionExpiredMessage
            | SUBSCRIPTION_EXPIRED \<Rightarrow>
                SetNotificationAttributes
                  \<lparr>variant = ''danger'', notification_message = MSG_SUBSCRIPTION_EXPIRED,
                   notification_action = Some UPGRADE_NOW, discFullIcon = False\<rparr>
            | STORAGE_QUOTA_EXCEEDED \<Rightarrow>
                SetNotificationAttributes
                  \<lparr>variant = ''danger'', notification_message = MSG_STORAGE_QUOTA_EXCEEDED,
                   notification_action = Some RENEW_NOW, discFullIcon = True\<rparr>
            | OtherError msg \<Rightarrow>
                SetNotificationAttributes
                  \<lparr>variant = ''danger'', notification_message = MSG_UNKNOWN_ERROR,
                   notification_action = None, discFullIcon = False\<rparr>]"
proof -
  obtain tr q where tq: "trace (snd (uploadFiles_try en items colls s)) = trace s @ tr @ q"
     "\<forall>x\<in>set tr. isImportServiceCall x" "q = [] \<or> q = [QueueFilesForUpload items colls]"
    using trace_uploadFiles_try by blast
  have s1: "trace s1 = trace s @ tr @ q" using tq(1) assms by simp
  have ntr: "filter isUserFacing tr = []"
  proof -
    have "\<forall>x\<in>set tr. \<not> isUserFacing x"
    proof
      fix x assume "x \<in> set tr"
      then have "isImportServiceCall x" using tq(2) by blast
      then show "\<not> isUserFacing x" by (cases x) simp_all
    qed
    then show ?thesis by (simp add: filter_empty_conv)
  qed
  have nq: "filter isUserFacing q = []" using tq(3) by auto
  have "newEffects s (snd (uploadFiles en items colls s)) =
          tr @ q @ drop (length (trace s1)) (trace (showUserFacingError err s1))
             @ [SetUploadInProgress False, SyncWithRemote None None]"
    using trace_uploadFiles_failure [OF assms] s1 by (simp add: newEffects_def)
  then have "filter isUserFacing (newEffects s (snd (uploadFiles en items colls s))) =
          filter isUserFacing (drop (length (trace s1)) (trace (showUserFacingError err s1)))"
    using ntr nq by simp
  moreover have "fst (uploadFiles en items colls s) = Some err"
    using assms by (simp add: uploadFiles_def)
  ultimately show ?thesis
    by (cases err) (simp_all add: emit_def)
qed

subsection \<open>Cancelling\<close>


subsection \<open>Retrying with nothing failed\<close>

lemma manager_postUploadAction: "manager (postUploadAction s) = manager s"
  by (simp add: postUploadAction_def setUploadInProgress_def emit_def)

lemma manager_showUserFacingError: "manager (showUserFacingError err s) = manager s"
  by (cases err) (simp_all add: emit_def)

lemma batch_preUploadAction: "batch (manager (snd (preUploadAction en s))) = emptyBatchState"
  by (simp add: preUploadAction_def setUploadInProgress_def prepareForNewUpload_def emit_def Let_def)

lemma failedItems_empty: "failedItems emptyBatchState = []"
  by (simp add: failedItems_def emptyBatchState_def)

lemma retryFailedFiles_noop:
  "failedItems (batch (manager s)) = [] \<Longrightarrow>
     retryFailedFiles en s = (None, emit RetryFailedFiles s)"
  by (simp add: retryFailedFiles_def emit_def Let_def)

text \<open>
  \<^bold>\<open>C5\<close> (as amended). With no item whose outcome is Failed,
  \<^verbatim>\<open>uploadManager.retryFailedFiles()\<close> resolves and leaves the manager as it was;
  \<^verbatim>\<open>retryFailed\<close>, which first runs \<^verbatim>\<open>preUploadAction\<close> and with it
  \<^verbatim>\<open>prepareForNewUpload\<close>, leaves both counters at zero.
\<close>

theorem retryFailed_resets_counters:
  assumes "failedItems (batch (manager s)) = []"
  shows "fst (retryFailedFiles en s) = None
       \<and> manager (snd (retryFailedFiles en s)) = manager s
       \<and> finished (batch (manager (retryFailed en s))) = 0
       \<and> total (batch (manager (retryFailed en s))) = 0"
proof -
  have a: "fst (retryFailedFiles en s) = None \<and> manager (snd (retryFailedFiles en s)) = manager s"
    using assms by (simp add: retryFailedFiles_noop emit_def)
  let ?s1 = "snd (preUploadAction en s)"
  have f1: "failedItems (batch (manager ?s1)) = []"
    by (simp add: batch_preUploadAction failedItems_empty)
  have "batch (manager (retryFailed en s)) = emptyBatchState"
  proof (cases "syncWithRemote_res en")
    case None
    then have "seq (preUploadAction en) (retryFailedFiles en) s = (None, emit RetryFailedFiles ?s1)"
      by (simp add: seq_None fst_preUploadAction retryFailedFiles_noop [OF f1])
    then show ?thesis
      by (simp add: retryFailed_def manager_postUploadAction emit_def batch_preUploadAction)
  next
    case (Some e)
    then have "seq (preUploadAction en) (retryFailedFiles en) s = (Some e, ?s1)"
      by (simp add: seq_Some fst_preUploadAction)
    then show ?thesis
      by (simp add: retryFailed_def manager_postUploadAction manager_showUserFacingError
          closeUploadProgress_def batch_preUploadAction)
  qed
  then show ?thesis using a by (simp add: emptyBatchState_def)
qed

subsection \<open>Where a queued batch comes from\<close>

lemma trace_uploadFiles:
  "\<exists>tr q u. trace (snd (uploadFiles en items colls s)) =
        trace s @ tr @ q @ u @ [SetUploadInProgress False, SyncWithRemote None None]
      \<and> (\<forall>x\<in>set tr. isImportServiceCall x)
      \<and> (q = [] \<or> q = [QueueFilesForUpload items colls])
      \<and> (\<forall>x\<in>set u. isUserFacing x)"
proof -
  obtain tr q where tq: "trace (snd (uploadFiles_try en items colls s)) = trace s @ tr @ q"
     "\<forall>x\<in>set tr. isImportServiceCall x" "q = [] \<or> q = [QueueFilesForUpload items colls]"
    using trace_uploadFiles_try by blast
  obtain r s1 where rs: "uploadFiles_try en items colls s = (r, s1)" by (cases "uploadFiles_try en items colls s")
  then have s1: "trace s1 = trace s @ tr @ q" using tq(1) by simp
  show ?thesis
  proof (cases r)
    case None
    then have "trace (snd (uploadFiles en items colls s)) =
        trace s @ tr @ q @ [] @ [SetUploadInProgress False, SyncWithRemote None None]"
      using rs s1 by (simp add: uploadFiles_def trace_postUploadAction)
    with tq(2,3) show ?thesis by (metis empty_iff empty_set)
  next
    case (Some err)
    obtain x where x: "trace (showUserFacingError err s1) = trace s1 @ [x]" "isUserFacing x"
      using trace_showUserFacingError by blast
    then have "trace (snd (uploadFiles en items colls s)) =
        trace s @ tr @ q @ [x] @ [SetUploadInProgress False, SyncWithRemote None None]"
      using rs s1 Some by (simp add: uploadFiles_def trace_postUploadAction closeUploadProgress_def)
    moreover have "\<forall>y\<in>set [x]. isUserFacing y" using x(2) by simp
    ultimately show ?thesis using tq(2,3) by blast
  qed
qed

lemma queued_uploadFiles:
  assumes "trace s = trace s0 @ pre" "\<forall>i c. QueueFilesForUpload i c \<notin> set pre"
      and "QueueFilesForUpload i c \<in> set (drop (length (trace s0)) (trace (snd (uploadFiles en items colls s)) @ post))"
      and "\<forall>i c. QueueFilesForUpload i c \<notin> set post"
  shows "i = items \<and> c = colls"
proof -
  obtain tr q u where t: "trace (snd (uploadFiles en items colls s)) =
        trace s @ tr @ q @ u @ [SetUploadInProgress False, SyncWithRemote None None]"
      "\<forall>x\<in>set tr. isImportServiceCall x"
      "q = [] \<or> q = [QueueFilesForUpload items colls]"
      "\<forall>x\<in>set u. isUserFacing x"
    using trace_uploadFiles by blast
  have eq: "drop (length (trace s0)) (trace (snd (uploadFiles en items colls s)) @ post)
        = pre @ tr @ q @ u @ [SetUploadInProgress False, SyncWithRemote None None] @ post"
    using t(1) assms(1) by simp
  have "QueueFilesForUpload i c \<notin> set tr" using t(2) by fastforce
  moreover have "QueueFilesForUpload i c \<notin> set u" using t(4) by fastforce
  moreover have "QueueFilesForUpload i c \<in>
      set (pre @ tr @ q @ u @ [SetUploadInProgress False, SyncWithRemote None None] @ post)"
    using assms(3) unfolding eq .
  ultimately have "QueueFilesForUpload i c \<in> set q"
    using assms(2,4) by auto
  with t(3) show ?thesis by auto
qed

lemma queued_existing:
  assumes "QueueFilesForUpload items colls \<in> set (newEffects s (uploadFilesToExistingCollection en c s))"
  shows "\<exists>files. toUploadFiles s = Some files \<and> items = filesWithCollectionForExisting files c \<and> colls = [c]"
proof -
  let ?s1 = "snd (preUploadAction en s)"
  let ?pre = "[CloseCollectionSelector, CloseUploadTypeSelector, PrepareForNewUpload,
      SetUploadInProgress True, SyncWithRemote (Some True) (Some True)]"
  have tp: "trace ?s1 = trace s @ ?pre" by (rule trace_preUploadAction)
  have np: "\<forall>i c. QueueFilesForUpload i c \<notin> set ?pre" by simp
  show ?thesis
  proof (cases "syncWithRemote_res en")
    case (Some e)
    then have "uploadFilesToExistingCollection_try en c s = (Some e, ?s1)"
      by (simp add: uploadFilesToExistingCollection_try_def seq_Some fst_preUploadAction)
    then have "newEffects s (uploadFilesToExistingCollection en c s)
        = ?pre @ [LogError e ''Failed to upload files to existing collections'']"
      by (simp add: uploadFilesToExistingCollection_def newEffects_def emit_def tp)
    with assms show ?thesis by simp
  next
    case None
    show ?thesis
    proof (cases "toUploadFiles s")
      case None': None
      then have "uploadFilesToExistingCollection_try en c s = (Some TypeError, ?s1)"
        using None
        by (simp add: uploadFilesToExistingCollection_try_def seq_None fst_preUploadAction
            toUploadFiles_preUploadAction)
      then have "newEffects s (uploadFilesToExistingCollection en c s)
        = ?pre @ [LogError TypeError ''Failed to upload files to existing collections'']"
        by (simp add: uploadFilesToExistingCollection_def newEffects_def emit_def tp)
      with assms show ?thesis by simp
    next
      case (Some files)
      let ?b = "filesWithCollectionForExisting files c"
      have tryres: "uploadFilesToExistingCollection_try en c s = uploadFiles en ?b [c] ?s1"
        using None Some
        by (simp add: uploadFilesToExistingCollection_try_def seq_None fst_preUploadAction
            toUploadFiles_preUploadAction)
      have "\<exists>post. (\<forall>i c. QueueFilesForUpload i c \<notin> set post) \<and>
          trace (uploadFilesToExistingCollection en c s) = trace (snd (uploadFiles en ?b [c] ?s1)) @ post"
      proof -
        obtain r s2 where rs: "uploadFiles en ?b [c] ?s1 = (r, s2)"
          by (cases "uploadFiles en ?b [c] ?s1")
        show ?thesis
        proof (cases r)
          case None
          then have "trace (uploadFilesToExistingCollection en c s) = trace (snd (uploadFiles en ?b [c] ?s1)) @ []"
            using tryres rs by (simp add: uploadFilesToExistingCollection_def)
          then show ?thesis by (metis empty_iff empty_set)
        next
          case (Some e)
          then have "trace (uploadFilesToExistingCollection en c s) = trace (snd (uploadFiles en ?b [c] ?s1))
               @ [LogError e ''Failed to upload files to existing collections'']"
            using tryres rs by (simp add: uploadFilesToExistingCollection_def emit_def)
          moreover have "\<forall>i c. QueueFilesForUpload i c \<notin> set [LogError e ''Failed to upload files to existing collections'']"
            by simp
          ultimately show ?thesis by blast
        qed
      qed
      then obtain post where post: "\<forall>i c. QueueFilesForUpload i c \<notin> set post"
          "trace (uploadFilesToExistingCollection en c s) = trace (snd (uploadFiles en ?b [c] ?s1)) @ post"
        by blast
      from assms post(2) have "QueueFilesForUpload items colls \<in>
          set (drop (length (trace s)) (trace (snd (uploadFiles en ?b [c] ?s1)) @ post))"
        by (simp add: newEffects_def)
      from queued_uploadFiles [OF tp np this post(1)] Some show ?thesis by simp
    qed
  qed
qed

lemma resolveCollections_success:
  assumes "resolveCollections_try en groups s = (Inr r, s')"
  shows "resolveCollections en groups s = (Inr r, s')"
  using assms by (simp add: resolveCollections_def)

lemma queued_new:
  assumes "QueueFilesForUpload items colls
             \<in> set (newEffects s (uploadFilesToNewCollections en strategy collectionName s))"
  shows "syncWithRemote_res en = None
       \<and> (\<exists>groups s2. collectionNameToFilesMap en strategy collectionName s = Inr groups
           \<and> resolveCollections_try en groups (snd (preUploadAction en s)) = (Inr (items, colls), s2))"
proof -
  let ?s1 = "snd (preUploadAction en s)"
  let ?pre = "[CloseCollectionSelector, CloseUploadTypeSelector, PrepareForNewUpload,
      SetUploadInProgress True, SyncWithRemote (Some True) (Some True)]"
  let ?final = "uploadFilesToNewCollections en strategy collectionName s"
  have tp: "trace ?s1 = trace s @ ?pre" by (rule trace_preUploadAction)
  have cm: "collectionNameToFilesMap en strategy collectionName ?s1
              = collectionNameToFilesMap en strategy collectionName s"
    using collectionNameToFilesMap_cong [OF toUploadFiles_preUploadAction] by simp
  show ?thesis
  proof (cases "syncWithRemote_res en")
    case (Some e)
    then have "uploadFilesToNewCollections_try en strategy collectionName s = (Some e, ?s1)"
      by (simp add: uploadFilesToNewCollections_try_def seq_Some fst_preUploadAction)
    then have "newEffects s ?final = ?pre @ [LogError e ''Failed to upload files to new collections'']"
      by (simp add: uploadFilesToNewCollections_def newEffects_def emit_def tp)
    with assms show ?thesis by simp
  next
    case None
    show ?thesis
    proof (cases "collectionNameToFilesMap en strategy collectionName s")
      case (Inl e)
      then have "uploadFilesToNewCollections_try en strategy collectionName s = (Some e, ?s1)"
        using None cm
        by (simp add: uploadFilesToNewCollections_try_def seq_None fst_preUploadAction)
      then have "newEffects s ?final = ?pre @ [LogError e ''Failed to upload files to new collections'']"
        by (simp add: uploadFilesToNewCollections_def newEffects_def emit_def tp)
      with assms show ?thesis by simp
    next
      case (Inr groups)
      obtain r s2 where rs: "resolveCollections_try en groups ?s1 = (r, s2)"
        by (cases "resolveCollections_try en groups ?s1")
      obtain tr where tr: "s2 = ?s1\<lparr>trace := trace ?s1 @ SyncCollections # tr\<rparr>"
        "\<forall>x\<in>set tr. \<exists>n ex. x = CreateAlbum n ex"
        using snd_resolveCollections_try [of en groups ?s1] rs by auto
      show ?thesis
      proof (cases r)
        case Inl': (Inl e)
        then have "fst (resolveCollections_try en groups ?s1) = Inl e" using rs by simp
        from resolveCollections_failure [OF this] obtain tr' where tr':
          "resolveCollections en groups ?s1 =
             (Inl e, ?s1\<lparr>uploadProgressView := False,
                     trace := trace ?s1 @ SyncCollections # tr' @
                       [LogError e ''Failed to create album'',
                        SetDialogMessage CREATE_ALBUM_FAILED_DIALOG]\<rparr>)"
          "\<forall>x\<in>set tr'. \<exists>n ex. x = CreateAlbum n ex"
          by blast
        have "uploadFilesToNewCollections_try en strategy collectionName s =
             (Some e, ?s1\<lparr>uploadProgressView := False,
                     trace := trace ?s1 @ SyncCollections # tr' @
                       [LogError e ''Failed to create album'',
                        SetDialogMessage CREATE_ALBUM_FAILED_DIALOG]\<rparr>)"
          using None Inr cm tr'(1)
          by (simp add: uploadFilesToNewCollections_try_def seq_None fst_preUploadAction)
        then have "newEffects s ?final = ?pre @ SyncCollections # tr' @
                       [LogError e ''Failed to create album'',
                        SetDialogMessage CREATE_ALBUM_FAILED_DIALOG,
                        LogError e ''Failed to upload files to new collections'']"
          by (simp add: uploadFilesToNewCollections_def newEffects_def emit_def tp)
        with assms tr'(2) show ?thesis by auto
      next
        case Inr': (Inr p)
        obtain its cs where p: "p = (its, cs)" by (cases p)
        have res: "resolveCollections en groups ?s1 = (Inr (its, cs), s2)"
          using rs Inr' p by (simp add: resolveCollections_success)
        have tryres: "uploadFilesToNewCollections_try en strategy collectionName s = uploadFiles en its cs s2"
          using None Inr cm res
          by (simp add: uploadFilesToNewCollections_try_def seq_None fst_preUploadAction)
        have ts2: "trace s2 = trace s @ (?pre @ SyncCollections # tr)"
          using tr(1) tp by simp
        have nq: "\<forall>i c. QueueFilesForUpload i c \<notin> set (?pre @ SyncCollections # tr)"
          using tr(2) by auto
        have "\<exists>post. (\<forall>i c. QueueFilesForUpload i c \<notin> set post) \<and>
            trace ?final = trace (snd (uploadFiles en its cs s2)) @ post"
        proof -
          obtain r' s3 where rs': "uploadFiles en its cs s2 = (r', s3)"
            by (cases "uploadFiles en its cs s2")
          show ?thesis
          proof (cases r')
            case None
            then have "trace ?final = trace (snd (uploadFiles en its cs s2)) @ []"
              using tryres rs' by (simp add: uploadFilesToNewCollections_def)
            then show ?thesis by (metis empty_iff empty_set)
          next
            case (Some e)
            then have "trace ?final = trace (snd (uploadFiles en its cs s2))
                 @ [LogError e ''Failed to upload files to new collections'']"
              using tryres rs' by (simp add: uploadFilesToNewCollections_def emit_def)
            moreover have "\<forall>i c. QueueFilesForUpload i c \<notin> set [LogError e ''Failed to upload files to new collections'']"
              by simp
            ultimately show ?thesis by blast
          qed
        qed
        then obtain post where post: "\<forall>i c. QueueFilesForUpload i c \<notin> set post"
            "trace ?final = trace (snd (uploadFiles en its cs s2)) @ post"
          by blast
        from assms post(2) have "QueueFilesForUpload items colls \<in>
            set (drop (length (trace s)) (trace (snd (uploadFiles en its cs s2)) @ post))"
          by (simp add: newEffects_def)
        from queued_uploadFiles [OF ts2 nq this post(1)] have "items = its \<and> colls = cs" .
        with rs Inr' p Inr None show ?thesis by blast
      qed
    qed
  qed
qed

lemma localID_resolveCollections_try:
  assumes "resolveCollections_try en groups s = (Inr (items, colls), s')"
  shows "map localID items = [0..<length items]"
proof -
  from assms obtain ex where ex: "syncCollections_res en = Inr ex"
    "createAlbums en ex groups 0 [] [] (emit SyncCollections s) = (Inr (items, colls), s')"
    by (auto simp: resolveCollections_try_def Let_def split: sum.splits)
  from createAlbums_success [OF ex(2)] show ?thesis by auto
qed

lemma localID_existing:
  "map localID (filesWithCollectionForExisting files c) = [0..<length files]"
  using map_localID_enumerate [of "collection_id c" 0 files]
  by (simp add: filesWithCollectionForExisting_def)

text \<open>
  \<^bold>\<open>C2.\<close> In every batch that \<^verbatim>\<open>uploadFilesToExistingCollection\<close> or
  \<^verbatim>\<open>uploadFilesToNewCollections\<close> hands to \<^verbatim>\<open>queueFilesForUpload\<close>, the
  \<^verbatim>\<open>localID\<close>s are \<open>0, 1, \<dots>\<close> in the order of the batch, hence pairwise distinct;
  they are part of the batch as it is built.
\<close>

theorem localIDs_distinct_in_batch:
  "(QueueFilesForUpload items colls \<in> set (newEffects s (uploadFilesToExistingCollection en c s))
    \<or> QueueFilesForUpload items colls
         \<in> set (newEffects s (uploadFilesToNewCollections en strategy collectionName s)))
   \<longrightarrow> map localID items = [0..<length items] \<and> distinct (map localID items)"
proof (intro impI)
  assume a: "QueueFilesForUpload items colls \<in> set (newEffects s (uploadFilesToExistingCollection en c s))
    \<or> QueueFilesForUpload items colls
         \<in> set (newEffects s (uploadFilesToNewCollections en strategy collectionName s))"
  have "map localID items = [0..<length items]"
  proof (rule disjE [OF a])
    assume "QueueFilesForUpload items colls \<in> set (newEffects s (uploadFilesToExistingCollection en c s))"
    from queued_existing [OF this] obtain files where
      "items = filesWithCollectionForExisting files c" by blast
    then show ?thesis
      using localID_existing [of files c] by (simp add: filesWithCollectionForExisting_def)
  next
    assume "QueueFilesForUpload items colls
         \<in> set (newEffects s (uploadFilesToNewCollections en strategy collectionName s))"
    from queued_new [OF this] localID_resolveCollections_try show ?thesis by blast
  qed
  moreover have "distinct [0..<length items]" by simp
  ultimately show "map localID items = [0..<length items] \<and> distinct (map localID items)"
    by metis
qed

subsection \<open>One album for each group\<close>

lemma map_fst_addToGroup:
  "map fst (addToGroup k f m) = (if k \<in> set (map fst m) then map fst m else map fst m @ [k])"
proof (induction m)
  case Nil
  show ?case by simp
next
  case (Cons p m)
  obtain k' fs where p: "p = (k', fs)" by (cases p)
  show ?case
  proof (cases "k = k'")
    case True
    with p show ?thesis by simp
  next
    case False
    with p Cons show ?thesis by simp
  qed
qed

lemma distinct_addToGroup: "distinct (map fst m) \<Longrightarrow> distinct (map fst (addToGroup k f m))"
  by (simp add: map_fst_addToGroup)

lemma distinct_foldl_addToGroup:
  "distinct (map fst m) \<Longrightarrow> distinct (map fst (foldl (\<lambda>m f. addToGroup (key f) f m) m files))"
  by (induction files arbitrary: m) (simp_all add: distinct_addToGroup)

lemma distinct_groupFilesBasedOnParentFolder:
  "distinct (map fst (groupFilesBasedOnParentFolder key files))"
  by (simp add: groupFilesBasedOnParentFolder_def distinct_foldl_addToGroup)

lemma distinct_collectionNameToFilesMap:
  assumes "collectionNameToFilesMap en strategy collectionName s = Inr groups"
  shows "distinct (map fst groups)"
proof (cases "strategy = SINGLE_COLLECTION")
  case True
  with assms show ?thesis by (auto simp: collectionNameToFilesMap_def)
next
  case False
  with assms obtain files where
    g: "groups = map (\<lambda>(k, fs). (Some k, Some fs)) (groupFilesBasedOnParentFolder (parentFolder en) files)"
    by (auto simp: collectionNameToFilesMap_def split: option.splits)
  have "map fst groups = map Some (map fst (groupFilesBasedOnParentFolder (parentFolder en) files))"
    by (simp add: g case_prod_unfold)
  moreover have "distinct (map Some (map fst (groupFilesBasedOnParentFolder (parentFolder en) files)))"
    using distinct_groupFilesBasedOnParentFolder [of "parentFolder en" files]
    by (subst distinct_map) simp
  ultimately show ?thesis by simp
qed

lemma filter_isCreateAlbum_calls:
  "filter isCreateAlbum (map (\<lambda>g. CreateAlbum (fst g) ex) groups) = map (\<lambda>g. CreateAlbum (fst g) ex) groups"
  by (induction groups) simp_all

lemma filter_isCreateAlbum_none:
  "\<forall>x\<in>set tr. isImportServiceCall x \<or> isUserFacing x \<Longrightarrow> filter isCreateAlbum tr = []"
proof -
  assume a: "\<forall>x\<in>set tr. isImportServiceCall x \<or> isUserFacing x"
  have "\<forall>x\<in>set tr. \<not> isCreateAlbum x"
  proof
    fix x assume "x \<in> set tr"
    with a have "isImportServiceCall x \<or> isUserFacing x" by blast
    then show "\<not> isCreateAlbum x" by (cases x) simp_all
  qed
  then show ?thesis by (simp add: filter_empty_conv)
qed

lemma createAlbum_calls_on_success:
  assumes pre: "syncWithRemote_res en = None"
      and groups: "collectionNameToFilesMap en strategy collectionName s = Inr groups"
      and ok: "resolveCollections_try en groups (snd (preUploadAction en s)) = (Inr (items, colls), s2)"
      and ex: "syncCollections_res en = Inr ex"
  shows "filter isCreateAlbum (newEffects s (uploadFilesToNewCollections en strategy collectionName s))
           = map (\<lambda>g. CreateAlbum (fst g) ex) groups"
proof -
  let ?s1 = "snd (preUploadAction en s)"
  let ?pre = "[CloseCollectionSelector, CloseUploadTypeSelector, PrepareForNewUpload,
      SetUploadInProgress True, SyncWithRemote (Some True) (Some True)]"
  let ?calls = "map (\<lambda>g. CreateAlbum (fst g) ex) groups"
  let ?final = "uploadFilesToNewCollections en strategy collectionName s"
  have tp: "trace ?s1 = trace s @ ?pre" by (rule trace_preUploadAction)
  have cm: "collectionNameToFilesMap en strategy collectionName ?s1 = Inr groups"
    using groups collectionNameToFilesMap_cong [OF toUploadFiles_preUploadAction] by simp
  from ok ex have "createAlbums en ex groups 0 [] [] (emit SyncCollections ?s1) = (Inr (items, colls), s2)"
    by (simp add: resolveCollections_try_def)
  from createAlbums_success [OF this]
  have "s2 = (emit SyncCollections ?s1)\<lparr>trace := trace (emit SyncCollections ?s1) @ ?calls\<rparr>"
    by blast
  then have ts2: "trace s2 = trace s @ ?pre @ SyncCollections # ?calls"
    by (simp add: emit_def tp)
  have res: "resolveCollections en groups ?s1 = (Inr (items, colls), s2)"
    using ok by (simp add: resolveCollections_success)
  have tryres: "uploadFilesToNewCollections_try en strategy collectionName s = uploadFiles en items colls s2"
    using pre cm res
    by (simp add: uploadFilesToNewCollections_try_def seq_None fst_preUploadAction)
  obtain tr q u where t: "trace (snd (uploadFiles en items colls s2)) =
        trace s2 @ tr @ q @ u @ [SetUploadInProgress False, SyncWithRemote None None]"
      "\<forall>x\<in>set tr. isImportServiceCall x"
      "q = [] \<or> q = [QueueFilesForUpload items colls]"
      "\<forall>x\<in>set u. isUserFacing x"
    using trace_uploadFiles by blast
  obtain r' s3 where rs': "uploadFiles en items colls s2 = (r', s3)"
    by (cases "uploadFiles en items colls s2")
  have "\<exists>post. filter isCreateAlbum post = [] \<and> trace ?final = trace s3 @ post"
  proof (cases r')
    case None
    then have "trace ?final = trace s3 @ []"
      using tryres rs' by (simp add: uploadFilesToNewCollections_def)
    then show ?thesis by (metis filter.simps(1))
  next
    case (Some e)
    then have "trace ?final = trace s3 @ [LogError e ''Failed to upload files to new collections'']"
      using tryres rs' by (simp add: uploadFilesToNewCollections_def emit_def)
    moreover have "filter isCreateAlbum [LogError e ''Failed to upload files to new collections''] = []"
      by simp
    ultimately show ?thesis by blast
  qed
  then obtain post where post: "filter isCreateAlbum post = []" "trace ?final = trace s3 @ post"
    by blast
  have "newEffects s ?final = ?pre @ SyncCollections # ?calls @ tr @ q @ u
          @ [SetUploadInProgress False, SyncWithRemote None None] @ post"
    using post(2) t(1) rs' ts2 by (simp add: newEffects_def)
  moreover have "filter isCreateAlbum tr = []" using t(2) filter_isCreateAlbum_none by blast
  moreover have "filter isCreateAlbum u = []" using t(4) filter_isCreateAlbum_none by blast
  moreover have "filter isCreateAlbum q = []" using t(3) by auto
  ultimately show ?thesis using post(1) by (simp add: filter_isCreateAlbum_calls)
qed

text \<open>
  \<^bold>\<open>C3.\<close> For every batch that \<^verbatim>\<open>uploadFilesToNewCollections\<close> hands to
  \<^verbatim>\<open>queueFilesForUpload\<close>, under either strategy: the group names are pairwise
  distinct, the calls of \<^verbatim>\<open>createAlbum\<close> in the whole run are one per group, in the
  order of the groups; the collections of the batch are what these calls returned; and
  every file of a group is paired with the id of the collection returned for its group.
\<close>

theorem one_album_per_group:
  assumes "QueueFilesForUpload items colls
             \<in> set (newEffects s (uploadFilesToNewCollections en strategy collectionName s))"
  shows "\<exists>groups existing.
           collectionNameToFilesMap en strategy collectionName s = Inr groups
         \<and> syncCollections_res en = Inr existing
         \<and> distinct (map fst groups)
         \<and> filter isCreateAlbum (newEffects s (uploadFilesToNewCollections en strategy collectionName s))
             = map (\<lambda>g. CreateAlbum (fst g) existing) groups
         \<and> map Inr colls = map (\<lambda>(i, g). createAlbum_res en i (fst g) existing) (enumerate 0 groups)
         \<and> map (\<lambda>it. (fileRef it, collectionID it)) items = pairWithCollections groups colls"
proof -
  let ?s1 = "snd (preUploadAction en s)"
  from queued_new [OF assms] obtain groups s2 where
    pre: "syncWithRemote_res en = None" and
    g: "collectionNameToFilesMap en strategy collectionName s = Inr groups" and
    ok: "resolveCollections_try en groups ?s1 = (Inr (items, colls), s2)"
    by blast
  from ok obtain ex where ex: "syncCollections_res en = Inr ex"
    "createAlbums en ex groups 0 [] [] (emit SyncCollections ?s1) = (Inr (items, colls), s2)"
    by (auto simp: resolveCollections_try_def Let_def split: sum.splits)
  from createAlbums_success [OF ex(2)] have
    calls: "map Inr colls = map (\<lambda>(i, g). createAlbum_res en i (fst g) ex) (enumerate 0 groups)"
    and pairs: "map (\<lambda>it. (fileRef it, collectionID it)) items = pairWithCollections groups colls"
    by auto
  note d = distinct_collectionNameToFilesMap [OF g]
  note c = createAlbum_calls_on_success [OF pre g ok ex(1)]
  from g ex(1) d c calls pairs show ?thesis by blast
qed

subsection \<open>Resuming a pending desktop upload\<close>

lemma cells_emit: "cells (emit e s) = cells s"
  by (simp add: cells_def emit_def)

lemma cells_trace_update: "cells (s\<lparr>trace := t\<rparr>) = cells s"
  by (simp add: cells_def)

lemma cells_closeUploadProgress: "cells (closeUploadProgress s) = cells s"
  by (simp add: cells_def closeUploadProgress_def)

lemma cells_preUploadAction: "cells (snd (preUploadAction en s)) = cells s"
  by (simp add: cells_def preUploadAction_def prepareForNewUpload_def setUploadInProgress_def emit_def Let_def)

lemma cells_postUploadAction: "cells (postUploadAction s) = cells s"
  by (simp add: cells_def postUploadAction_def setUploadInProgress_def emit_def)

lemma cells_showUserFacingError: "cells (showUserFacingError err s) = cells s"
  by (cases err) (simp_all add: cells_emit)

lemma cells_persistPendingUpload: "cells (snd (persistPendingUpload en items colls s)) = cells s"
  by (auto simp: cells_def persistPendingUpload_def seq_def setToUploadCollection_def persistZipPaths_def
      setToUploadFiles_def emit_def split: option.splits prod.splits)

lemma cells_queueFilesForUpload: "cells (snd (queueFilesForUpload en items colls s)) = cells s"
  by (simp add: cells_def queueFilesForUpload_def emit_def Let_def)

lemma cells_seq:
  assumes "\<And>s. cells (snd (f s)) = cells s" "\<And>s. cells (snd (g s)) = cells s"
  shows "cells (snd (seq f g s)) = cells s"
proof (cases "fst (f s)")
  case None
  then show ?thesis using assms by (simp add: seq_None)
next
  case (Some e)
  then show ?thesis using assms by (simp add: seq_Some)
qed

lemma cells_uploadFiles_try: "cells (snd (uploadFiles_try en items colls s)) = cells s"
  unfolding uploadFiles_try_def
  by (rule cells_seq) (simp_all add: cells_persistPendingUpload cells_queueFilesForUpload)

lemma cells_uploadFiles: "cells (snd (uploadFiles en items colls s)) = cells s"
proof -
  obtain r s1 where rs: "uploadFiles_try en items colls s = (r, s1)"
    by (cases "uploadFiles_try en items colls s")
  then have "cells s1 = cells s" using cells_uploadFiles_try [of en items colls s] by simp
  then show ?thesis using rs
    by (cases r) (simp_all add: uploadFiles_def cells_postUploadAction cells_closeUploadProgress
        cells_showUserFacingError)
qed

lemma cells_resolveCollections_try: "cells (snd (resolveCollections_try en groups s)) = cells s"
proof -
  obtain tr where "snd (resolveCollections_try en groups s) = s\<lparr>trace := trace s @ SyncCollections # tr\<rparr>"
    using snd_resolveCollections_try by blast
  then show ?thesis by (simp add: cells_trace_update)
qed

lemma cells_resolveCollections: "cells (snd (resolveCollections en groups s)) = cells s"
proof -
  obtain r s1 where rs: "resolveCollections_try en groups s = (r, s1)"
    by (cases "resolveCollections_try en groups s")
  then have "cells s1 = cells s" using cells_resolveCollections_try [of en groups s] by simp
  then show ?thesis using rs
    by (cases r) (simp_all add: resolveCollections_def cells_emit cells_closeUploadProgress)
qed

lemma cells_uploadFilesToNewCollections_try:
  "cells (snd (uploadFilesToNewCollections_try en strategy collectionName s)) = cells s"
  unfolding uploadFilesToNewCollections_try_def
proof (rule cells_seq)
  fix s show "cells (snd (preUploadAction en s)) = cells s" by (rule cells_preUploadAction)
next
  fix s
  show "cells (snd (case collectionNameToFilesMap en strategy collectionName s of
              Inl e \<Rightarrow> (Some e, s)
            | Inr groups \<Rightarrow>
                (case resolveCollections en groups s of
                   (Inl e, s') \<Rightarrow> (Some e, s')
                 | (Inr (items, colls), s') \<Rightarrow> uploadFiles en items colls s'))) = cells s"
  proof (cases "collectionNameToFilesMap en strategy collectionName s")
    case (Inl e)
    then show ?thesis by simp
  next
    case (Inr groups)
    obtain r s1 where rs: "resolveCollections en groups s = (r, s1)"
      by (cases "resolveCollections en groups s")
    then have c: "cells s1 = cells s" using cells_resolveCollections [of en groups s] by simp
    show ?thesis
    proof (cases r)
      case Inl': (Inl e)
      with Inr rs c show ?thesis by simp
    next
      case Inr': (Inr p)
      obtain its cs where "p = (its, cs)" by (cases p)
      with Inr Inr' rs c show ?thesis by (simp add: cells_uploadFiles)
    qed
  qed
qed

lemma cells_uploadFilesToNewCollections:
  "cells (uploadFilesToNewCollections en strategy collectionName s) = cells s"
proof -
  obtain r s1 where rs: "uploadFilesToNewCollections_try en strategy collectionName s = (r, s1)"
    by (cases "uploadFilesToNewCollections_try en strategy collectionName s")
  then have "cells s1 = cells s"
    using cells_uploadFilesToNewCollections_try [of en strategy collectionName s] by simp
  then show ?thesis using rs
    by (cases r) (simp_all add: uploadFilesToNewCollections_def cells_emit)
qed


lemma uploadFilesToNewCollections_rest_eq:
  "uploadFilesToNewCollections en strategy collectionName s =
     uploadFilesToNewCollections_rest en strategy collectionName (snd (preUploadAction en s))"
proof (cases "syncWithRemote_res en")
  case None
  then show ?thesis
    by (simp add: uploadFilesToNewCollections_def uploadFilesToNewCollections_try_def
        uploadFilesToNewCollections_rest_def seq_None fst_preUploadAction)
next
  case (Some e)
  then show ?thesis
    by (simp add: uploadFilesToNewCollections_def uploadFilesToNewCollections_try_def
        uploadFilesToNewCollections_rest_def seq_Some fst_preUploadAction)
qed
















subsection \<open>The name of the first album\<close>



subsection \<open>The guard against a second batch\<close>

lemma grows_uploadFilesToNewCollections_rest:
  "\<exists>tr. trace (uploadFilesToNewCollections_rest en strategy collectionName s) = trace s @ tr"
proof -
  let ?final = "uploadFilesToNewCollections_rest en strategy collectionName s"
  let ?log = "\<lambda>e. LogError e ''Failed to upload files to new collections''"
  show ?thesis
  proof (cases "syncWithRemote_res en")
    case (Some e)
    then have "trace ?final = trace s @ [?log e]"
      by (simp add: uploadFilesToNewCollections_rest_def emit_def)
    then show ?thesis by blast
  next
    case None
    show ?thesis
    proof (cases "collectionNameToFilesMap en strategy collectionName s")
      case (Inl e)
      with None have "trace ?final = trace s @ [?log e]"
        by (simp add: uploadFilesToNewCollections_rest_def emit_def)
      then show ?thesis by blast
    next
      case (Inr groups)
      obtain r s2 where rs: "resolveCollections en groups s = (r, s2)"
        by (cases "resolveCollections en groups s")
      obtain r0 s0 where rs0: "resolveCollections_try en groups s = (r0, s0)"
        by (cases "resolveCollections_try en groups s")
      obtain tr where tr: "s0 = s\<lparr>trace := trace s @ SyncCollections # tr\<rparr>"
        using snd_resolveCollections_try [of en groups s] rs0 by auto
      have g2: "\<exists>tr2. trace s2 = trace s @ tr2"
        using rs rs0 tr
        by (cases r0) (auto simp: resolveCollections_def emit_def closeUploadProgress_def)
      then obtain tr2 where tr2: "trace s2 = trace s @ tr2" by blast
      show ?thesis
      proof (cases r)
        case Inl': (Inl e)
        then have "trace ?final = trace s @ tr2 @ [?log e]"
          using None Inr rs tr2 by (simp add: uploadFilesToNewCollections_rest_def emit_def)
        then show ?thesis by blast
      next
        case Inr': (Inr p)
        obtain its cs where p: "p = (its, cs)" by (cases p)
        obtain t' q' u where t: "trace (snd (uploadFiles en its cs s2)) =
            trace s2 @ t' @ q' @ u @ [SetUploadInProgress False, SyncWithRemote None None]"
          using trace_uploadFiles by blast
        obtain r' s3 where rs': "uploadFiles en its cs s2 = (r', s3)"
          by (cases "uploadFiles en its cs s2")
        have "\<exists>post. trace ?final = trace s3 @ post"
        proof (cases r')
          case None': None
          then have "trace ?final = trace s3 @ []"
            using None Inr Inr' p rs rs' by (simp add: uploadFilesToNewCollections_rest_def)
          then show ?thesis by blast
        next
          case (Some e)
          then have "trace ?final = trace s3 @ [?log e]"
            using None Inr Inr' p rs rs' by (simp add: uploadFilesToNewCollections_rest_def emit_def)
          then show ?thesis by blast
        qed
        then obtain post where "trace ?final = trace s3 @ post" by blast
        then have "trace ?final = trace s @ (tr2 @ t' @ q' @ u
            @ [SetUploadInProgress False, SyncWithRemote None None] @ post)"
          using t rs' tr2 by simp
        then show ?thesis by blast
      qed
    qed
  qed
qed

lemma in_newEffects:
  "trace s' = trace s @ pre @ tr \<Longrightarrow> x \<in> set pre \<Longrightarrow> x \<in> set (newEffects s s')"
  by (simp add: newEffects_def)

lemma prepare_uploadFilesToNewCollections:
  "PrepareForNewUpload \<in> set (newEffects s (uploadFilesToNewCollections en strategy collectionName s))"
proof -
  obtain tr where "trace (uploadFilesToNewCollections_rest en strategy collectionName
      (snd (preUploadAction en s))) = trace (snd (preUploadAction en s)) @ tr"
    using grows_uploadFilesToNewCollections_rest by blast
  then have "trace (uploadFilesToNewCollections en strategy collectionName s) = trace s @
     [CloseCollectionSelector, CloseUploadTypeSelector, PrepareForNewUpload,
      SetUploadInProgress True, SyncWithRemote (Some True) (Some True)] @ tr"
    by (simp add: uploadFilesToNewCollections_rest_eq trace_preUploadAction)
  then show ?thesis by (rule in_newEffects) simp
qed

lemma prepare_uploadFilesToExistingCollection:
  "PrepareForNewUpload \<in> set (newEffects s (uploadFilesToExistingCollection en c s))"
proof -
  let ?s1 = "snd (preUploadAction en s)"
  let ?log = "\<lambda>e. LogError e ''Failed to upload files to existing collections''"
  have "\<exists>tr. trace (uploadFilesToExistingCollection en c s) = trace ?s1 @ tr"
  proof (cases "syncWithRemote_res en")
    case (Some e)
    then have "trace (uploadFilesToExistingCollection en c s) = trace ?s1 @ [?log e]"
      by (simp add: uploadFilesToExistingCollection_def uploadFilesToExistingCollection_try_def
          seq_Some fst_preUploadAction emit_def)
    then show ?thesis by blast
  next
    case None
    show ?thesis
    proof (cases "toUploadFiles s")
      case None': None
      then have "trace (uploadFilesToExistingCollection en c s) = trace ?s1 @ [?log TypeError]"
        using None
        by (simp add: uploadFilesToExistingCollection_def uploadFilesToExistingCollection_try_def
            seq_None fst_preUploadAction toUploadFiles_preUploadAction emit_def)
      then show ?thesis by blast
    next
      case (Some files)
      let ?b = "filesWithCollectionForExisting files c"
      have tryres: "uploadFilesToExistingCollection_try en c s = uploadFiles en ?b [c] ?s1"
        using None Some
        by (simp add: uploadFilesToExistingCollection_try_def seq_None fst_preUploadAction
            toUploadFiles_preUploadAction)
      obtain t' q' u where t: "trace (snd (uploadFiles en ?b [c] ?s1)) =
            trace ?s1 @ t' @ q' @ u @ [SetUploadInProgress False, SyncWithRemote None None]"
        using trace_uploadFiles by blast
      obtain r' s3 where rs': "uploadFiles en ?b [c] ?s1 = (r', s3)"
        by (cases "uploadFiles en ?b [c] ?s1")
      have "\<exists>post. trace (uploadFilesToExistingCollection en c s) = trace s3 @ post"
      proof (cases r')
        case None'': None
        then have "trace (uploadFilesToExistingCollection en c s) = trace s3 @ []"
          using tryres rs' by (simp add: uploadFilesToExistingCollection_def)
        then show ?thesis by blast
      next
        case Some': (Some e)
        then have "trace (uploadFilesToExistingCollection en c s) = trace s3 @ [?log e]"
          using tryres rs' by (simp add: uploadFilesToExistingCollection_def emit_def)
        then show ?thesis by blast
      qed
      then obtain post where "trace (uploadFilesToExistingCollection en c s) = trace s3 @ post"
        by blast
      then have "trace (uploadFilesToExistingCollection en c s) = trace ?s1 @ (t' @ q' @ u
            @ [SetUploadInProgress False, SyncWithRemote None None] @ post)"
        using t rs' by simp
      then show ?thesis by blast
    qed
  qed
  then obtain tr where "trace (uploadFilesToExistingCollection en c s) = trace ?s1 @ tr" by blast
  then have "trace (uploadFilesToExistingCollection en c s) = trace s @
     [CloseCollectionSelector, CloseUploadTypeSelector, PrepareForNewUpload,
      SetUploadInProgress True, SyncWithRemote (Some True) (Some True)] @ tr"
    by (simp add: trace_preUploadAction)
  then show ?thesis by (rule in_newEffects) simp
qed

lemma grows_retryFailedFiles:
  "\<exists>tr. trace (snd (retryFailedFiles en s)) = trace s @ tr"
  by (simp add: retryFailedFiles_def emit_def Let_def)

lemma prepare_retryFailed:
  "PrepareForNewUpload \<in> set (newEffects s (retryFailed en s))"
proof -
  let ?s1 = "snd (preUploadAction en s)"
  obtain r s2 where rs: "seq (preUploadAction en) (retryFailedFiles en) s = (r, s2)"
    by (cases "seq (preUploadAction en) (retryFailedFiles en) s")
  have "\<exists>tr. trace s2 = trace ?s1 @ tr"
  proof (cases "syncWithRemote_res en")
    case None
    then have "s2 = snd (retryFailedFiles en ?s1)"
      using rs by (simp add: seq_None fst_preUploadAction)
    then show ?thesis using grows_retryFailedFiles by simp
  next
    case (Some e)
    then have "s2 = ?s1" using rs by (simp add: seq_Some fst_preUploadAction)
    then show ?thesis by simp
  qed
  then obtain tr where tr: "trace s2 = trace ?s1 @ tr" by blast
  have "\<exists>tr'. trace (retryFailed en s) = trace s2 @ tr'"
  proof (cases r)
    case None
    then show ?thesis using rs by (simp add: retryFailed_def trace_postUploadAction)
  next
    case (Some err)
    obtain x where "trace (showUserFacingError err s2) = trace s2 @ [x]"
      using trace_showUserFacingError by blast
    then show ?thesis using rs Some
      by (simp add: retryFailed_def trace_postUploadAction closeUploadProgress_def)
  qed
  then obtain tr' where "trace (retryFailed en s) = trace s2 @ tr'" by blast
  then have "trace (retryFailed en s) = trace s @
     [CloseCollectionSelector, CloseUploadTypeSelector, PrepareForNewUpload,
      SetUploadInProgress True, SyncWithRemote (Some True) (Some True)] @ (tr @ tr')"
    using tr by (simp add: trace_preUploadAction)
  then show ?thesis by (rule in_newEffects) simp
qed

text \<open>
  \<^bold>\<open>C4\<close> (as amended). The in-progress flag is checked where files arrive: while an upload
  is in progress the files-arrived effect does nothing, so it starts no batch and does not
  call \<^verbatim>\<open>prepareForNewUpload\<close>; and \<^verbatim>\<open>preUploadAction\<close> raises the flag. The handlers
  do not check the flag: \<^verbatim>\<open>retryFailed\<close>, \<^verbatim>\<open>uploadFilesToExistingCollection\<close> and
  \<^verbatim>\<open>uploadFilesToNewCollections\<close> call \<^verbatim>\<open>prepareForNewUpload\<close> whenever they are
  called.
\<close>

theorem filesArrived_guard_only:
  "(uploadInProgress s \<longrightarrow> filesArrived en isFirstUpload s = s
        \<and> PrepareForNewUpload \<notin> set (newEffects s (filesArrived en isFirstUpload s)))
   \<and> uploadInProgress (snd (preUploadAction en s))
   \<and> PrepareForNewUpload \<in> set (newEffects s (retryFailed en s))
   \<and> PrepareForNewUpload \<in> set (newEffects s (uploadFilesToExistingCollection en c s))
   \<and> PrepareForNewUpload
        \<in> set (newEffects s (uploadFilesToNewCollections en strategy collectionName s))"
proof -
  have "uploadInProgress s \<longrightarrow> filesArrived en isFirstUpload s = s
        \<and> PrepareForNewUpload \<notin> set (newEffects s (filesArrived en isFirstUpload s))"
    by (simp add: filesArrived_def newEffects_def)
  moreover have "uploadInProgress (snd (preUploadAction en s))"
    by (simp add: preUploadAction_def setUploadInProgress_def prepareForNewUpload_def emit_def
        Let_def)
  ultimately show ?thesis
    using prepare_retryFailed prepare_uploadFilesToExistingCollection
      prepare_uploadFilesToNewCollections by blast
qed

text \<open>With a batch in flight, suspended at its first \<^verbatim>\<open>await\<close> with the flag up,
  \<^verbatim>\<open>retryFailed\<close> calls \<^verbatim>\<open>prepareForNewUpload\<close>.\<close>

theorem single_batch_counterexample:
  "uploadInProgress inFlightState
   \<and> suspendedCalls inFlightState = [UploadFilesToNewCollections_rest COLLECTION_PER_FOLDER None]
   \<and> PrepareForNewUpload \<in> set (newEffects inFlightState (retryFailed sampleEnv inFlightState))"
  by (simp add: sample_defs op_defs more_defs)

subsection \<open>After uploadFiles and retryFailed\<close>






subsection \<open>Concrete runs\<close>

text \<open>Each theorem above applied to the sample values, its hypotheses checked there.\<close>

text \<open>With no failed item and a finished batch of three files, \<^verbatim>\<open>retryFailed\<close> changes
  both counters from 3 to 0.\<close>

theorem retryFailed_counters_counterexample:
  "failedItems (batch (manager finishedState)) = []
   \<and> finished (batch (manager finishedState)) = 3
   \<and> total (batch (manager finishedState)) = 3
   \<and> finished (batch (manager (retryFailed sampleEnv finishedState))) = 0
   \<and> total (batch (manager (retryFailed sampleEnv finishedState))) = 0"
  by (simp add: sample_defs op_defs)

theorem album_creation_failure_aborts_witness:
  "syncWithRemote_res albumFailingEnv = None
   \<and> collectionNameToFilesMap albumFailingEnv COLLECTION_PER_FOLDER None sampleState = Inr sampleGroups
   \<and> fst (resolveCollections_try albumFailingEnv sampleGroups sampleState) = Inl (OtherError ''network'')
   \<and> fst (uploadFilesToNewCollections_try albumFailingEnv COLLECTION_PER_FOLDER None sampleState)
        = Some (OtherError ''network'')
   \<and> uploadProgressView (uploadFilesToNewCollections albumFailingEnv COLLECTION_PER_FOLDER None sampleState)
        = False
   \<and> (\<forall>items colls. QueueFilesForUpload items colls
          \<notin> set (newEffects sampleState
                 (uploadFilesToNewCollections albumFailingEnv COLLECTION_PER_FOLDER None sampleState)))"
proof -
  have h1: "syncWithRemote_res albumFailingEnv = None"
    by (simp add: sample_defs)
  have h2: "collectionNameToFilesMap albumFailingEnv COLLECTION_PER_FOLDER None sampleState
              = Inr sampleGroups"
    by (simp add: sample_defs op_defs)
  have h3: "fst (resolveCollections_try albumFailingEnv sampleGroups sampleState)
              = Inl (OtherError ''network'')"
    by (simp add: sample_defs op_defs)
  from album_creation_failure_aborts [OF h1 h2 h3] h1 h2 h3 show ?thesis by blast
qed

theorem localIDs_distinct_in_batch_witness:
  "QueueFilesForUpload sampleBatch sampleCollections
     \<in> set (newEffects sampleState
              (uploadFilesToNewCollections sampleEnv COLLECTION_PER_FOLDER None sampleState))
   \<and> map localID sampleBatch = [0..<length sampleBatch]
   \<and> distinct (map localID sampleBatch)"
proof -
  have h: "QueueFilesForUpload sampleBatch sampleCollections
     \<in> set (newEffects sampleState
              (uploadFilesToNewCollections sampleEnv COLLECTION_PER_FOLDER None sampleState))"
    by (simp add: sample_defs op_defs)
  with localIDs_distinct_in_batch
         [of sampleBatch sampleCollections sampleState sampleEnv
            "\<lparr>collection_id = 1, collection_name = ''/trip''\<rparr>" COLLECTION_PER_FOLDER None]
  show ?thesis by blast
qed

theorem one_album_per_group_witness:
  "QueueFilesForUpload sampleBatch sampleCollections
     \<in> set (newEffects sampleState
              (uploadFilesToNewCollections sampleEnv COLLECTION_PER_FOLDER None sampleState))
   \<and> filter isCreateAlbum
        (newEffects sampleState
           (uploadFilesToNewCollections sampleEnv COLLECTION_PER_FOLDER None sampleState))
       = [CreateAlbum (Some ''/trip'') [], CreateAlbum (Some ''/home'') []]
   \<and> map (\<lambda>it. (fileRef it, collectionID it)) sampleBatch
       = pairWithCollections sampleGroups sampleCollections"
proof -
  have h: "QueueFilesForUpload sampleBatch sampleCollections
     \<in> set (newEffects sampleState
              (uploadFilesToNewCollections sampleEnv COLLECTION_PER_FOLDER None sampleState))"
    by (simp add: sample_defs op_defs)
  have g: "collectionNameToFilesMap sampleEnv COLLECTION_PER_FOLDER None sampleState = Inr sampleGroups"
    by (simp add: sample_defs op_defs)
  have e: "syncCollections_res sampleEnv = Inr []"
    by (simp add: sample_defs)
  from one_album_per_group [OF h] obtain groups existing where
    r: "collectionNameToFilesMap sampleEnv COLLECTION_PER_FOLDER None sampleState = Inr groups"
       "syncCollections_res sampleEnv = Inr existing"
       "filter isCreateAlbum
          (newEffects sampleState
             (uploadFilesToNewCollections sampleEnv COLLECTION_PER_FOLDER None sampleState))
         = map (\<lambda>g. CreateAlbum (fst g) existing) groups"
       "map (\<lambda>it. (fileRef it, collectionID it)) sampleBatch
         = pairWithCollections groups sampleCollections"
    by blast
  from r(1) g have "groups = sampleGroups" by simp
  moreover from r(2) e have "existing = []" by simp
  ultimately show ?thesis using h r(3,4) by (simp add: sampleGroups_def)
qed

theorem retryFailed_resets_counters_witness:
  "failedItems (batch (manager finishedState)) = []
   \<and> manager (snd (retryFailedFiles sampleEnv finishedState)) = manager finishedState
   \<and> finished (batch (manager (retryFailed sampleEnv finishedState))) = 0
   \<and> total (batch (manager (retryFailed sampleEnv finishedState))) = 0"
proof -
  have h: "failedItems (batch (manager finishedState)) = []"
    by (simp add: sample_defs failedItems_def)
  from retryFailed_resets_counters [OF h, of sampleEnv] h show ?thesis by blast
qed

theorem queueing_error_shown_once_witness:
  "fst (uploadFiles_try quotaEnv sampleBatch sampleCollections sampleState) = Some STORAGE_QUOTA_EXCEEDED
   \<and> filter isUserFacing
        (newEffects sampleState (snd (uploadFiles quotaEnv sampleBatch sampleCollections sampleState)))
       = [SetNotificationAttributes
            \<lparr>variant = ''danger'', notification_message = MSG_STORAGE_QUOTA_EXCEEDED,
             notification_action = Some RENEW_NOW, discFullIcon = True\<rparr>]"
proof -
  have f: "fst (uploadFiles_try quotaEnv sampleBatch sampleCollections sampleState)
             = Some STORAGE_QUOTA_EXCEEDED"
    by (simp add: sample_defs op_defs)
  then have h: "uploadFiles_try quotaEnv sampleBatch sampleCollections sampleState
      = (Some STORAGE_QUOTA_EXCEEDED,
         snd (uploadFiles_try quotaEnv sampleBatch sampleCollections sampleState))"
    by (metis prod.collapse)
  from queueing_error_shown_once [OF h] f show ?thesis by simp
qed



theorem filesArrived_guard_only_witness:
  "uploadInProgress busyState \<and> webFiles busyState \<noteq> []
   \<and> filesArrived sampleEnv True busyState = busyState
   \<and> PrepareForNewUpload \<in> set (newEffects busyState (retryFailed sampleEnv busyState))"
proof -
  have h: "uploadInProgress busyState" "webFiles busyState \<noteq> []"
    by (simp_all add: sample_defs)
  with filesArrived_guard_only [of busyState sampleEnv True] show ?thesis by blast
qed



end
